theory Spec2Isabelle
  imports Main
begin

section \<open>Python values and strings\<close>

text \<open>
  A Python \<open>str\<close> is modelled as a HOL \<open>string\<close> in which every \<open>char\<close> stands for one
  code point in the range 0..255 (Latin-1).  The predicates below are Python's own
  classifications of those code points.
\<close>

definition py_isspace :: "char \<Rightarrow> bool" where
  \<comment> \<open>\<open>str.isspace\<close> on one code point; also the separator set of \<open>str.split()\<close> and \<open>str.strip()\<close>.\<close>
  "py_isspace c =
     (let n = (of_char c :: nat)
      in (9 \<le> n \<and> n \<le> 13) \<or> (28 \<le> n \<and> n \<le> 32) \<or> n = 133 \<or> n = 160)"

definition py_isalpha_char :: "char \<Rightarrow> bool" where
  \<comment> \<open>Unicode letter categories (L*) restricted to code points below 256.\<close>
  "py_isalpha_char c =
     (let n = (of_char c :: nat)
      in (65 \<le> n \<and> n \<le> 90) \<or> (97 \<le> n \<and> n \<le> 122) \<or> n = 170 \<or> n = 181 \<or> n = 186
         \<or> (192 \<le> n \<and> n \<le> 214) \<or> (216 \<le> n \<and> n \<le> 246) \<or> (248 \<le> n \<and> n \<le> 255))"

definition py_isalpha :: "string \<Rightarrow> bool" where
  \<comment> \<open>\<open>str.isalpha\<close>: false on the empty string.\<close>
  "py_isalpha s = (s \<noteq> [] \<and> list_all py_isalpha_char s)"

definition is_digit :: "char \<Rightarrow> bool" where
  "is_digit c = (let n = (of_char c :: nat) in 48 \<le> n \<and> n \<le> 57)"

definition is_digits :: "string \<Rightarrow> bool" where
  "is_digits s = (s \<noteq> [] \<and> list_all is_digit s)"

definition digit_val :: "char \<Rightarrow> nat" where
  "digit_val c = of_char c - 48"

definition nat_of_digits :: "string \<Rightarrow> nat" where
  "nat_of_digits s = foldl (\<lambda>acc c. 10 * acc + digit_val c) 0 s"

definition py_strip :: "string \<Rightarrow> string" where
  \<comment> \<open>\<open>s.strip()\<close>\<close>
  "py_strip s = rev (dropWhile py_isspace (rev (dropWhile py_isspace s)))"

definition remove_spaces :: "string \<Rightarrow> string" where
  \<comment> \<open>\<open>v.replace(" ", "")\<close>\<close>
  "remove_spaces v = filter (\<lambda>c. c \<noteq> CHR '' '') v"

fun no_double_underscore :: "string \<Rightarrow> bool" where
  "no_double_underscore (a # b # cs) =
     (if a = CHR ''_'' \<and> b = CHR ''_'' then False else no_double_underscore (b # cs))"
| "no_double_underscore cs = True"

definition grouped_digits :: "string \<Rightarrow> bool" where
  \<comment> \<open>digits, with single underscores allowed between them\<close>
  "grouped_digits body =
     (body \<noteq> [] \<and> list_all (\<lambda>c. is_digit c \<or> c = CHR ''_'') body
      \<and> is_digit (hd body) \<and> is_digit (last body) \<and> no_double_underscore body)"

definition py_int_str :: "string \<Rightarrow> int option" where
  \<comment> \<open>\<open>int(s)\<close> on a string, \<open>None\<close> for \<open>ValueError\<close>: surrounding whitespace, an optional
      sign, grouped digits, at most 4300 of them\<close>
  "py_int_str s =
     (case py_strip s of
        [] \<Rightarrow> None
      | c # r \<Rightarrow>
          let body = (if c = CHR ''-'' \<or> c = CHR ''+'' then r else c # r);
              ds = filter is_digit body
          in if grouped_digits body \<and> length ds \<le> 4300
             then Some (if c = CHR ''-'' then - int (nat_of_digits ds) else int (nat_of_digits ds))
             else None)"

datatype pyval = PyStr string | PyInt int | PyNone

type_synonym raw_record = "string \<rightharpoonup> pyval"

section \<open>Regular expressions\<close>

datatype rexp =
    Zero
  | One
  | Chr char
  | NotChr char
  | Alt rexp rexp
  | Seq rexp rexp
  | Star rexp

definition OneOrMore :: "rexp \<Rightarrow> rexp" where
  \<comment> \<open>the postfix \<open>+\<close> of the pattern syntax\<close>
  "OneOrMore r = Seq r (Star r)"

fun nullable :: "rexp \<Rightarrow> bool" where
  "nullable Zero = False"
| "nullable One = True"
| "nullable (Chr c) = False"
| "nullable (NotChr c) = False"
| "nullable (Alt r s) = (nullable r \<or> nullable s)"
| "nullable (Seq r s) = (nullable r \<and> nullable s)"
| "nullable (Star r) = True"

fun deriv :: "char \<Rightarrow> rexp \<Rightarrow> rexp" where
  "deriv a Zero = Zero"
| "deriv a One = Zero"
| "deriv a (Chr c) = (if a = c then One else Zero)"
| "deriv a (NotChr c) = (if a = c then Zero else One)"
| "deriv a (Alt r s) = Alt (deriv a r) (deriv a s)"
| "deriv a (Seq r s) =
     (if nullable r then Alt (Seq (deriv a r) s) (deriv a s) else Seq (deriv a r) s)"
| "deriv a (Star r) = Seq (deriv a r) (Star r)"

fun match_prefix :: "rexp \<Rightarrow> string \<Rightarrow> bool" where
  \<comment> \<open>some prefix of the string is in the language of the expression\<close>
  "match_prefix r [] = nullable r"
| "match_prefix r (c # cs) = (nullable r \<or> match_prefix (deriv c r) cs)"

fun re_search :: "rexp \<Rightarrow> string \<Rightarrow> bool" where
  \<comment> \<open>unanchored search: some substring of the string is in the language\<close>
  "re_search r [] = nullable r"
| "re_search r (c # cs) = (match_prefix r (c # cs) \<or> re_search r cs)"

subsection \<open>The language of an expression\<close>

definition conc :: "string set \<Rightarrow> string set \<Rightarrow> string set" where
  "conc A B = {u @ v | u v. u \<in> A \<and> v \<in> B}"

inductive_set star :: "string set \<Rightarrow> string set" for A :: "string set" where
  star_empty: "[] \<in> star A"
| star_step: "u \<in> A \<Longrightarrow> v \<in> star A \<Longrightarrow> u @ v \<in> star A"

fun lang :: "rexp \<Rightarrow> string set" where
  "lang Zero = {}"
| "lang One = {[]}"
| "lang (Chr c) = {[c]}"
| "lang (NotChr c) = {[d] | d. d \<noteq> c}"
| "lang (Alt r s) = lang r \<union> lang s"
| "lang (Seq r s) = conc (lang r) (lang s)"
| "lang (Star r) = star (lang r)"

section \<open>Record validation (app/services/validation.py)\<close>

text \<open>
  The model class is checked field by field in the order \<open>name\<close>, \<open>email\<close>, \<open>age\<close>.  A
  string field takes a string only; the integer field takes an integer or, converted, a
  string that reads as one.  \<open>min_length\<close> and the pattern are checked before the validator of
  the field runs, the pattern by an unanchored search.  Keys other than the three fields
  are ignored, and a record is a dictionary with string keys.
\<close>

definition email_pattern :: rexp where
  \<comment> \<open>\<open>[^@]+@[^@]+\.[^@]+\<close>\<close>
  "email_pattern =
     Seq (OneOrMore (NotChr CHR ''@''))
       (Seq (Chr CHR ''@'')
         (Seq (OneOrMore (NotChr CHR ''@''))
           (Seq (Chr CHR ''.'') (OneOrMore (NotChr CHR ''@'')))))"

datatype err_type =
    Missing | StringType | StringTooShort | ValueErrorRaised | StringPatternMismatch
  | IntType | IntParsing | IntParsingSize | GreaterThan

record OnboardingDataModel =
  name :: string
  email :: string
  age :: int

definition rust_isspace :: "char \<Rightarrow> bool" where
  \<comment> \<open>the white space that the validation core trims (Unicode \<open>White_Space\<close> below 256)\<close>
  "rust_isspace c =
     (let n = (of_char c :: nat) in (9 \<le> n \<and> n \<le> 13) \<or> n = 32 \<or> n = 133 \<or> n = 160)"

definition rust_trim :: "string \<Rightarrow> string" where
  "rust_trim s = rev (dropWhile rust_isspace (rev (dropWhile rust_isspace s)))"

definition utf8_len :: "string \<Rightarrow> nat" where
  \<comment> \<open>the length in bytes: a code point from 128 on takes two\<close>
  "utf8_len s = length s + length (filter (\<lambda>c. 128 \<le> (of_char c :: nat)) s)"

definition parse_int :: "string \<Rightarrow> int option" where
  \<comment> \<open>an optional sign followed by at least one decimal digit\<close>
  "parse_int s =
     (case s of
        [] \<Rightarrow> None
      | c # ds \<Rightarrow>
          if c = CHR ''-'' then (if is_digits ds then Some (- int (nat_of_digits ds)) else None)
          else if c = CHR ''+'' then (if is_digits ds then Some (int (nat_of_digits ds)) else None)
          else if is_digits (c # ds) then Some (int (nat_of_digits (c # ds)))
          else None)"

definition strip_decimal_zeros :: "string \<Rightarrow> string option" where
  \<comment> \<open>\<open>1.000\<close> becomes \<open>1\<close>: what precedes the first dot, when only zeros follow it\<close>
  "strip_decimal_zeros s =
     (if CHR ''.'' \<in> set s
        \<and> list_all (\<lambda>c. c = CHR ''0'') (tl (dropWhile (\<lambda>c. c \<noteq> CHR ''.'') s))
      then Some (takeWhile (\<lambda>c. c \<noteq> CHR ''.'') s) else None)"

definition strip_underscores :: "string \<Rightarrow> string option" where
  \<comment> \<open>\<open>1_000\<close> becomes \<open>1000\<close>; no underscore at either end, none doubled\<close>
  "strip_underscores s =
     (if CHR ''_'' \<in> set s \<and> hd s \<noteq> CHR ''_'' \<and> last s \<noteq> CHR ''_'' \<and> no_double_underscore s
      then Some (filter (\<lambda>c. c \<noteq> CHR ''_'') s) else None)"

definition parse_big :: "string \<Rightarrow> int option" where
  \<comment> \<open>the arbitrary-precision parser: an optional sign, then a digit followed by digits and
      underscores; the underscores are skipped\<close>
  "parse_big s =
     (case s of
        [] \<Rightarrow> None
      | c # r \<Rightarrow>
          let body = (if c = CHR ''-'' \<or> c = CHR ''+'' then r else c # r)
          in if body \<noteq> [] \<and> is_digit (hd body) \<and> list_all (\<lambda>c. is_digit c \<or> c = CHR ''_'') body
             then Some (if c = CHR ''-'' then - int (nat_of_digits (filter is_digit body))
                        else int (nat_of_digits (filter is_digit body)))
             else None)"

definition parse_str :: "string \<Rightarrow> nat \<Rightarrow> int option" where
  \<comment> \<open>\<open>len\<close> is the length of the trimmed input: below 19 bytes the value fits a 64-bit
      integer and the machine parser is used, from 19 on the arbitrary-precision one\<close>
  "parse_str s len = (if len < 19 then parse_int s else parse_big s)"

definition parse_or :: "string \<Rightarrow> nat \<Rightarrow> err_type + int" where
  "parse_or s len = (case parse_str s len of None \<Rightarrow> Inl IntParsing | Some i \<Rightarrow> Inr i)"

definition str_as_int :: "string \<Rightarrow> err_type + int" where
  \<comment> \<open>the lax conversion of a string to an integer: trimmed, at most 4300 bytes long, then
      parsed as it is, or without a decimal part of zeros, or without grouping underscores\<close>
  "str_as_int s =
     (let t = rust_trim s; len = utf8_len t
      in if len > 4300 then Inl IntParsingSize
         else case parse_str t len of
                Some i \<Rightarrow> Inr i
              | None \<Rightarrow>
                  (case strip_decimal_zeros t of
                     Some t' \<Rightarrow> parse_or t' len
                   | None \<Rightarrow>
                       (case strip_underscores t of
                          Some t' \<Rightarrow> parse_or t' len
                        | None \<Rightarrow> Inl IntParsing)))"

definition name_must_be_alpha :: "string \<Rightarrow> err_type + string" where
  "name_must_be_alpha v =
     (if \<not> py_isalpha (remove_spaces v) then Inl ValueErrorRaised else Inr v)"

fun validate_name :: "pyval option \<Rightarrow> err_type + string" where
  "validate_name None = Inl Missing"
| "validate_name (Some (PyStr v)) =
     (if length v < 1 then Inl StringTooShort else name_must_be_alpha v)"
| "validate_name (Some _) = Inl StringType"

fun validate_email :: "pyval option \<Rightarrow> err_type + string" where
  "validate_email None = Inl Missing"
| "validate_email (Some (PyStr v)) =
     (if re_search email_pattern v then Inr v else Inl StringPatternMismatch)"
| "validate_email (Some _) = Inl StringType"

fun int_lax :: "pyval \<Rightarrow> err_type + int" where
  "int_lax (PyInt i) = Inr i"
| "int_lax (PyStr s) = str_as_int s"
| "int_lax PyNone = Inl IntType"

fun validate_age :: "pyval option \<Rightarrow> err_type + int" where
  "validate_age None = Inl Missing"
| "validate_age (Some v) =
     (case int_lax v of
        Inl e \<Rightarrow> Inl e
      | Inr i \<Rightarrow> if i > 0 then Inr i else Inl GreaterThan)"

fun field_errors :: "string \<Rightarrow> err_type + 'a \<Rightarrow> (string \<times> err_type) list" where
  "field_errors loc (Inl e) = [(loc, e)]"
| "field_errors loc (Inr v) = []"

definition OnboardingDataModel_init ::
  "raw_record \<Rightarrow> (string \<times> err_type) list + OnboardingDataModel" where
  \<comment> \<open>\<open>OnboardingDataModel(**data)\<close>: every field is checked, the errors are listed in field order\<close>
  "OnboardingDataModel_init data =
     (let rn = validate_name (data ''name'');
          re = validate_email (data ''email'');
          ra = validate_age (data ''age'')
      in case (rn, re, ra) of
           (Inr n, Inr e, Inr a) \<Rightarrow> Inr \<lparr>name = n, email = e, age = a\<rparr>
         | _ \<Rightarrow> Inl (field_errors ''name'' rn @ field_errors ''email'' re @ field_errors ''age'' ra))"

definition model_dict :: "OnboardingDataModel \<Rightarrow> raw_record" where
  \<comment> \<open>\<open>.dict()\<close>\<close>
  "model_dict m = [''name'' \<mapsto> PyStr (name m), ''email'' \<mapsto> PyStr (email m), ''age'' \<mapsto> PyInt (age m)]"

type_synonym validation_errors = "(string \<times> err_type) list"

definition validate_onboarding_data :: "raw_record \<Rightarrow> validation_errors + raw_record" where
  \<comment> \<open>\<open>Inl errs\<close> is \<open>ValueError(e.json())\<close>: the error list that \<open>json.loads\<close> gives back\<close>
  "validate_onboarding_data data =
     (case OnboardingDataModel_init data of
        Inl errs \<Rightarrow> Inl errs
      | Inr m \<Rightarrow> Inr (model_dict m))"

section \<open>Exceptions\<close>

datatype exn =
    HTTPException nat string
  | PyException string string

text \<open>
  \<open>HTTPException status detail\<close> is FastAPI's exception; \<open>PyException cls msg\<close> is any other
  Python exception, with its class name and the text \<open>str(e)\<close> gives.
\<close>

definition digit_char :: "nat \<Rightarrow> char" where
  "digit_char d = ''0123456789'' ! (d mod 10)"

fun string_of_nat :: "nat \<Rightarrow> string" where
  \<comment> \<open>\<open>str(n)\<close> for a non-negative integer\<close>
  "string_of_nat n =
     (if n < 10 then [digit_char n]
      else string_of_nat (n div 10) @ [digit_char (n mod 10)])"

declare string_of_nat.simps [simp del]

fun str_exn :: "exn \<Rightarrow> string" where
  \<comment> \<open>\<open>str(e)\<close>; for an \<open>HTTPException\<close> the status code, a colon and the detail\<close>
  "str_exn (HTTPException st detail) = string_of_nat st @ '': '' @ detail"
| "str_exn (PyException cls msg) = msg"

section \<open>File materialisation (app/utils/file\_utils.py)\<close>

text \<open>
  A \<open>pathlib.Path\<close> is the list of its components, relative to the working directory.
  The file system maps a path to what is stored there.
\<close>

type_synonym path = "string list"

datatype node = File string | Dir

type_synonym filesystem = "path \<rightharpoonup> node"

record UploadFile =
  filename :: string
  content_type :: string
  content :: string

definition UPLOAD_DIR :: path where
  "UPLOAD_DIR = [''uploads'']"

definition ALLOWED_SUFFIXES :: "string list" where
  "ALLOWED_SUFFIXES = [''.csv'', ''.xlsx'', ''.pdf'', ''.docx'', ''.json'']"

definition basename :: "string \<Rightarrow> string" where
  \<comment> \<open>\<open>os.path.basename\<close> (POSIX): what follows the last slash\<close>
  "basename p = rev (takeWhile (\<lambda>c. c \<noteq> CHR ''/'') (rev p))"

definition path_join :: "path \<Rightarrow> string \<Rightarrow> path" where
  \<comment> \<open>\<open>p / s\<close> for an \<open>s\<close> without a slash: an empty or \<open>.\<close> component is dropped\<close>
  "path_join p s = (if s = [] \<or> s = ''.'' then p else p @ [s])"

definition path_name :: "path \<Rightarrow> string" where
  "path_name p = (if p = [] then [] else last p)"

definition after_last_dot :: "string \<Rightarrow> string" where
  "after_last_dot nm = rev (takeWhile (\<lambda>c. c \<noteq> CHR ''.'') (rev nm))"

definition before_last_dot :: "string \<Rightarrow> string" where
  "before_last_dot nm = rev (tl (dropWhile (\<lambda>c. c \<noteq> CHR ''.'') (rev nm)))"

definition has_suffix :: "string \<Rightarrow> bool" where
  \<comment> \<open>the test of \<open>PurePath.suffix\<close>: \<open>0 < i < len(name) - 1\<close> for \<open>i = name.rfind('.')\<close>\<close>
  "has_suffix nm = (CHR ''.'' \<in> set nm \<and> before_last_dot nm \<noteq> [] \<and> after_last_dot nm \<noteq> [])"

definition path_suffix :: "path \<Rightarrow> string" where
  "path_suffix p =
     (let nm = path_name p in if has_suffix nm then CHR ''.'' # after_last_dot nm else [])"

definition path_stem :: "path \<Rightarrow> string" where
  "path_stem p =
     (let nm = path_name p in if has_suffix nm then before_last_dot nm else nm)"

definition path_exists :: "filesystem \<Rightarrow> path \<Rightarrow> bool" where
  "path_exists fs p = (fs p \<noteq> None)"

definition open_wb :: "filesystem \<Rightarrow> path \<Rightarrow> string \<Rightarrow> exn + filesystem" where
  \<comment> \<open>\<open>open(p, "wb")\<close> followed by one \<open>write\<close>: creates or truncates the file\<close>
  "open_wb fs p bytes =
     (if fs p = Some Dir then Inl (PyException ''IsADirectoryError'' ''Is a directory'')
      else if butlast p \<noteq> [] \<and> fs (butlast p) \<noteq> Some Dir
        then Inl (PyException ''OSError'' ''No such directory'')
      else Inr (fs(p \<mapsto> File bytes)))"

definition ensure_upload_dir :: "filesystem \<Rightarrow> filesystem" where
  "ensure_upload_dir fs = (if \<not> path_exists fs UPLOAD_DIR then fs(UPLOAD_DIR \<mapsto> Dir) else fs)"

definition save_and_validate_file ::
  "nat \<Rightarrow> filesystem \<Rightarrow> UploadFile \<Rightarrow> (exn + path) \<times> filesystem" where
  \<comment> \<open>\<open>now\<close> is \<open>int(time.time())\<close>\<close>
  "save_and_validate_file now fs0 file =
     (let fs = ensure_upload_dir fs0;
          fname = basename (filename file);
          file_path = path_join UPLOAD_DIR fname
      in if path_suffix file_path \<notin> set ALLOWED_SUFFIXES
           then (Inl (HTTPException 400 ''Unsupported file type''), fs)
         else
           let file_path' =
                 (if path_exists fs file_path
                  then path_join UPLOAD_DIR
                         (path_stem file_path @ ''_'' @ string_of_nat now @ path_suffix file_path)
                  else file_path)
           in case open_wb fs file_path' (content file) of
                Inl e \<Rightarrow> (Inl e, fs)
              | Inr fs' \<Rightarrow> (Inr file_path', fs'))"

section \<open>Upload pipeline (app/api/upload.py)\<close>

subsection \<open>String helpers\<close>

primrec split_on :: "char \<Rightarrow> string \<Rightarrow> string \<Rightarrow> string list" where
  \<comment> \<open>\<open>text.split(sep)\<close>, with the piece read so far as second argument\<close>
  "split_on sep cur [] = [cur]"
| "split_on sep cur (c # cs) =
     (if c = sep then cur # split_on sep [] cs else split_on sep (cur @ [c]) cs)"

primrec split_ws :: "string \<Rightarrow> string \<Rightarrow> string list" where
  \<comment> \<open>\<open>line.split()\<close>: runs of whitespace separate, no empty pieces\<close>
  "split_ws cur [] = (if cur = [] then [] else [cur])"
| "split_ws cur (c # cs) =
     (if py_isspace c then (if cur = [] then split_ws [] cs else cur # split_ws [] cs)
      else split_ws (cur @ [c]) cs)"

definition py_split :: "string \<Rightarrow> string list" where
  "py_split line = split_ws [] line"

definition py_lower_char :: "char \<Rightarrow> char" where
  "py_lower_char c =
     (let n = (of_char c :: nat)
      in if (65 \<le> n \<and> n \<le> 90) \<or> (192 \<le> n \<and> n \<le> 214) \<or> (216 \<le> n \<and> n \<le> 222)
         then char_of (n + 32) else c)"

definition py_lower :: "string \<Rightarrow> string" where
  "py_lower s = map py_lower_char s"

definition startswith :: "string \<Rightarrow> string \<Rightarrow> bool" where
  "startswith s pre = (take (length pre) s = pre)"

fun py_join :: "string \<Rightarrow> string list \<Rightarrow> string" where
  \<comment> \<open>\<open>sep.join(xs)\<close>\<close>
  "py_join sep [] = []"
| "py_join sep [x] = x"
| "py_join sep (x # y # ys) = x @ sep @ py_join sep (y # ys)"

fun find_index_of :: "('a \<Rightarrow> bool) \<Rightarrow> 'a list \<Rightarrow> nat option" where
  \<comment> \<open>\<open>next((i for i, w in enumerate(xs) if P(w)), -1)\<close>, with \<open>None\<close> for \<open>-1\<close>\<close>
  "find_index_of P [] = None"
| "find_index_of P (x # xs) =
     (if P x then Some 0 else map_option Suc (find_index_of P xs))"

subsection \<open>Names bound in the module\<close>

definition upload_globals :: "string list" where
  \<comment> \<open>what the import statements and the top-level definitions of upload.py bind\<close>
  "upload_globals =
     [''json'', ''docx'', ''pd'', ''pdfplumber'',
      ''APIRouter'', ''UploadFile'', ''File'', ''HTTPException'', ''Request'', ''Depends'',
      ''get_current_user'', ''send_data_to_saas_api'', ''save_and_validate_file'',
      ''validate_onboarding_data'', ''log_error'', ''Limiter'',
      ''router'', ''limiter'', ''upload_file'', ''handle_pdf'', ''handle_docx'']"

definition load_global :: "string \<Rightarrow> exn + unit" where
  \<comment> \<open>reading a global name inside a function of the module\<close>
  "load_global nm =
     (if nm \<in> set upload_globals then Inr ()
      else Inl (PyException ''NameError'' (''name '' @ [CHR 0x27] @ nm @ [CHR 0x27] @ '' is not defined'')))"

subsection \<open>PDF extraction\<close>

definition pdf_row :: "string \<Rightarrow> string \<Rightarrow> nat \<Rightarrow> raw_record" where
  \<comment> \<open>\<open>{"name": name, "email": email, "age": int(age)}\<close>\<close>
  "pdf_row n e a = [''name'' \<mapsto> PyStr n, ''email'' \<mapsto> PyStr e, ''age'' \<mapsto> PyInt (int a)]"

definition pdf_line :: "raw_record list \<Rightarrow> string \<Rightarrow> exn + raw_record list" where
  \<comment> \<open>the body of the loop over the lines of a page; \<open>extracted_data\<close> is threaded through\<close>
  "pdf_line extracted_data line =
     (if startswith (py_lower (py_strip line)) ''name'' \<or> py_strip line = [] then Inr extracted_data
      else
        let columns = py_split line
        in case find_index_of (\<lambda>word. CHR ''@'' \<in> set word) columns of
             None \<Rightarrow> Inr extracted_data
           | Some email_idx \<Rightarrow>
               if length columns > email_idx + 1 then
                 let nm = py_join '' '' (take email_idx columns);
                     em = columns ! email_idx;
                     ag = columns ! (email_idx + 1)
                 in case load_global ''re'' of
                      Inl e \<Rightarrow> Inl e
                    | Inr _ \<Rightarrow>
                        if is_digits ag
                        then Inr (extracted_data @ [pdf_row nm em (nat_of_digits ag)])
                        else Inr extracted_data
               else Inr extracted_data)"

fun pdf_lines :: "raw_record list \<Rightarrow> string list \<Rightarrow> exn + raw_record list" where
  "pdf_lines extracted_data [] = Inr extracted_data"
| "pdf_lines extracted_data (line # rest) =
     (case pdf_line extracted_data line of
        Inl e \<Rightarrow> Inl e
      | Inr extracted_data' \<Rightarrow> pdf_lines extracted_data' rest)"

fun pdf_pages :: "raw_record list \<Rightarrow> string list \<Rightarrow> exn + raw_record list" where
  \<comment> \<open>each page is the text \<open>extract_text\<close> returns, empty when there is none\<close>
  "pdf_pages extracted_data [] = Inr extracted_data"
| "pdf_pages extracted_data (text # rest) =
     (if text \<noteq> [] then
        (case pdf_lines extracted_data (split_on CHR 0x0A [] text) of
           Inl e \<Rightarrow> Inl e
         | Inr extracted_data' \<Rightarrow> pdf_pages extracted_data' rest)
      else pdf_pages extracted_data rest)"

definition handle_pdf_body :: "exn + string list \<Rightarrow> exn + raw_record list" where
  \<comment> \<open>the \<open>try\<close> block; the argument is what opening the file gives: an exception or the pages\<close>
  "handle_pdf_body doc =
     (case doc of
        Inl e \<Rightarrow> Inl e
      | Inr pages \<Rightarrow>
          (case pdf_pages [] pages of
             Inl e \<Rightarrow> Inl e
           | Inr extracted_data \<Rightarrow>
               if extracted_data = []
               then Inl (HTTPException 400 ''No valid data found in the PDF'')
               else Inr extracted_data))"

definition handle_pdf :: "exn + string list \<Rightarrow> exn + raw_record list" where
  \<comment> \<open>\<open>except Exception as e\<close> catches whatever the block raised\<close>
  "handle_pdf doc =
     (case handle_pdf_body doc of
        Inl e \<Rightarrow> Inl (HTTPException 400 (''Error processing PDF file: '' @ str_exn e))
      | Inr extracted_data \<Rightarrow> Inr extracted_data)"

subsection \<open>DOCX extraction\<close>

definition py_isdigit :: "string \<Rightarrow> bool" where
  \<comment> \<open>\<open>str.isdigit\<close>: the decimal digits and the superscripts two, three and one\<close>
  "py_isdigit s =
     (s \<noteq> [] \<and> list_all (\<lambda>c. is_digit c \<or> of_char c \<in> {178, 179, 185 :: nat}) s)"

definition py_int :: "string \<Rightarrow> exn + int" where
  \<comment> \<open>\<open>int(s)\<close> on a string\<close>
  "py_int s =
     (case py_int_str s of
        None \<Rightarrow> Inl (PyException ''ValueError'' (''invalid literal for int() with base 10: '' @ s))
      | Some i \<Rightarrow> Inr i)"

definition docx_row :: "raw_record list \<Rightarrow> string list \<Rightarrow> exn + raw_record list" where
  \<comment> \<open>one row after the header; the row is the list of the texts of its cells\<close>
  "docx_row extracted_data cells =
     (if length cells < 3 then Inl (PyException ''IndexError'' ''tuple index out of range'')
      else
        let nm = py_strip (cells ! 0);
            em = py_strip (cells ! 1);
            ag = py_strip (cells ! 2)
        in if py_isdigit ag then
             (case py_int ag of
                Inl e \<Rightarrow> Inl e
              | Inr a \<Rightarrow>
                  Inr (extracted_data @ [[''name'' \<mapsto> PyStr nm, ''email'' \<mapsto> PyStr em, ''age'' \<mapsto> PyInt a]]))
           else Inr extracted_data)"

fun docx_rows :: "raw_record list \<Rightarrow> string list list \<Rightarrow> exn + raw_record list" where
  "docx_rows extracted_data [] = Inr extracted_data"
| "docx_rows extracted_data (row # rest) =
     (case docx_row extracted_data row of
        Inl e \<Rightarrow> Inl e
      | Inr extracted_data' \<Rightarrow> docx_rows extracted_data' rest)"

fun docx_tables :: "raw_record list \<Rightarrow> string list list list \<Rightarrow> exn + raw_record list" where
  \<comment> \<open>row 0 of every table is skipped\<close>
  "docx_tables extracted_data [] = Inr extracted_data"
| "docx_tables extracted_data (table # rest) =
     (case docx_rows extracted_data (tl table) of
        Inl e \<Rightarrow> Inl e
      | Inr extracted_data' \<Rightarrow> docx_tables extracted_data' rest)"

definition handle_docx :: "exn + string list list list \<Rightarrow> exn + raw_record list" where
  "handle_docx doc =
     (case (case doc of
              Inl e \<Rightarrow> Inl e
            | Inr tables \<Rightarrow>
                (case docx_tables [] tables of
                   Inl e \<Rightarrow> Inl e
                 | Inr extracted_data \<Rightarrow>
                     if extracted_data = []
                     then Inl (HTTPException 400 ''No valid data found in the DOCX file'')
                     else Inr extracted_data)) of
        Inl e \<Rightarrow> Inl (HTTPException 400 (''Error processing DOCX file: '' @ str_exn e))
      | Inr extracted_data \<Rightarrow> Inr extracted_data)"

subsection \<open>Libraries and the outside world\<close>

text \<open>
  What the parsing libraries make of the bytes of a file, and what the downstream service
  answers, are parameters of the model.  \<open>Inl\<close> is the exception a call raises.
\<close>

record libs =
  pd_read_json :: "string \<Rightarrow> exn + raw_record list"
  pd_read_csv :: "string \<Rightarrow> exn + raw_record list"
  pd_read_excel :: "string \<Rightarrow> exn + raw_record list"
  pdfplumber_text :: "string \<Rightarrow> exn + string list"
  docx_document :: "string \<Rightarrow> exn + string list list list"
  session_post :: "raw_record list \<Rightarrow> exn + nat \<times> pyval"

record world =
  files :: filesystem
  forwarded :: "raw_record list list"

text \<open>\<open>forwarded\<close> lists the payloads posted to the downstream service, oldest first.\<close>

subsection \<open>Forwarding (app/utils/api\_client.py)\<close>

definition send_data_to_saas_api ::
  "libs \<Rightarrow> world \<Rightarrow> raw_record list \<Rightarrow> (exn + pyval) \<times> world" where
  "send_data_to_saas_api L w data =
     (let w' = w\<lparr>forwarded := forwarded w @ [data]\<rparr>;
          attempt =
            (case session_post L data of
               Inl e \<Rightarrow> Inl e
             | Inr (st, body) \<Rightarrow>
                 if st \<noteq> 200
                 then Inl (HTTPException st ''Error communicating with SaaS API'')
                 else Inr body)
      in case attempt of
           Inl e \<Rightarrow> (Inl (HTTPException 500 (''Failed to connect to SaaS API: '' @ str_exn e)), w')
         | Inr body \<Rightarrow> (Inr body, w'))"

subsection \<open>The endpoint\<close>

record upload_response =
  status :: string
  message :: string
  saas_api_response :: pyval

definition extract_records :: "libs \<Rightarrow> UploadFile \<Rightarrow> exn + raw_record list" where
  \<comment> \<open>the dispatch on the declared content type; the file read is the one just written\<close>
  "extract_records L file =
     (let ct = content_type file; bytes = content file
      in if ct = ''application/json'' then pd_read_json L bytes
         else if ct = ''text/csv'' then pd_read_csv L bytes
         else if ct \<in> set [''application/vnd.ms-excel'',
                   ''application/vnd.openxmlformats-officedocument.spreadsheetml.sheet'']
           then pd_read_excel L bytes
         else if ct = ''application/pdf'' then handle_pdf (pdfplumber_text L bytes)
         else if ct = ''application/vnd.openxmlformats-officedocument.wordprocessingml.document''
           then handle_docx (docx_document L bytes)
         else Inl (HTTPException 400 ''Unsupported file type''))"

definition first_loc :: "validation_errors \<Rightarrow> exn + string" where
  \<comment> \<open>\<open>json.loads(e.args[0])[0]['loc'][0]\<close>\<close>
  "first_loc errs =
     (case errs of
        [] \<Rightarrow> Inl (PyException ''IndexError'' ''list index out of range'')
      | (loc, t) # _ \<Rightarrow> Inr loc)"

fun validate_entries :: "raw_record list \<Rightarrow> raw_record list \<Rightarrow> exn + raw_record list" where
  \<comment> \<open>the loop over \<open>onboarding_data\<close>, with \<open>validated_data\<close> as first argument\<close>
  "validate_entries validated_data [] = Inr validated_data"
| "validate_entries validated_data (entry # rest) =
     (case validate_onboarding_data entry of
        Inl errs \<Rightarrow>
          (case first_loc errs of
             Inl e \<Rightarrow> Inl e
           | Inr loc \<Rightarrow> Inl (HTTPException 400 (''Validation error in '' @ loc @ '' column data'')))
      | Inr validated_entry \<Rightarrow> validate_entries (validated_data @ [validated_entry]) rest)"

definition upload_file_body ::
  "libs \<Rightarrow> nat \<Rightarrow> world \<Rightarrow> UploadFile \<Rightarrow> (exn + upload_response) \<times> world" where
  \<comment> \<open>the \<open>try\<close> block of \<open>upload_file\<close>\<close>
  "upload_file_body L now w file =
     (case save_and_validate_file now (files w) file of
        (Inl e, fs) \<Rightarrow> (Inl e, w\<lparr>files := fs\<rparr>)
      | (Inr file_path, fs) \<Rightarrow>
          let w1 = w\<lparr>files := fs\<rparr>
          in case extract_records L file of
               Inl e \<Rightarrow> (Inl e, w1)
             | Inr onboarding_data \<Rightarrow>
                 (case validate_entries [] onboarding_data of
                    Inl e \<Rightarrow> (Inl e, w1)
                  | Inr validated_data \<Rightarrow>
                      (case send_data_to_saas_api L w1 validated_data of
                         (Inl e, w2) \<Rightarrow> (Inl e, w2)
                       | (Inr response, w2) \<Rightarrow>
                           (Inr \<lparr>status = ''Success'',
                                 message = ''File uploaded, data validated, saved, and successfully sent to the SaaS platform.'',
                                 saas_api_response = response\<rparr>, w2))))"

definition upload_file ::
  "libs \<Rightarrow> nat \<Rightarrow> world \<Rightarrow> UploadFile \<Rightarrow> (exn + upload_response) \<times> world" where
  \<comment> \<open>\<open>except Exception as e\<close> around the block: every exception is caught, \<open>HTTPException\<close> included\<close>
  "upload_file L now w file =
     (case upload_file_body L now w file of
        (Inl e, w') \<Rightarrow> (Inl (HTTPException 500 (''An error occurred: '' @ str_exn e)), w')
      | (Inr r, w') \<Rightarrow> (Inr r, w'))"

section \<open>Token service (app/auth.py, main.py)\<close>

text \<open>
  The payload of a token is a JSON object, a map from claim names to JSON values (numbers
  with a fractional part are left out).  Times are seconds since the epoch.  The keyed
  signature is symbolic: \<open>Hmac k a p\<close> is the tag of payload \<open>p\<close> under key \<open>k\<close> and
  algorithm \<open>a\<close>, and a tag verifies only against the key and the payload it was made from.
  A string that does not split into header, payload and signature is \<open>Malformed\<close>; a
  payload that is not a JSON object is \<open>Unparsable\<close>.
\<close>

datatype jval =
    JNull
  | JBool bool
  | JInt int
  | JStr string
  | JArr "jval list"
  | JObj "(string \<times> jval) list"

type_synonym claims = "string \<rightharpoonup> jval"

datatype payload = Unparsable | Claims claims

datatype mac = Hmac string string payload | Garbage

datatype token = Malformed | Jwt string payload mac

definition ALGORITHM :: string where
  "ALGORITHM = ''HS256''"

definition ACCESS_TOKEN_EXPIRE_MINUTES :: int where
  "ACCESS_TOKEN_EXPIRE_MINUTES = 30"

definition minutes :: "int \<Rightarrow> int" where
  \<comment> \<open>\<open>timedelta(minutes=m)\<close>, in seconds\<close>
  "minutes m = 60 * m"

definition jwt_encode :: "claims \<Rightarrow> string \<Rightarrow> string \<Rightarrow> token" where
  "jwt_encode to_encode key alg = Jwt alg (Claims to_encode) (Hmac key alg (Claims to_encode))"

subsection \<open>Decoding and the checks of the registered claims\<close>

definition JWTError :: "string \<Rightarrow> exn" where
  "JWTError msg = PyException ''JWTError'' msg"

definition JWTClaimsError :: "string \<Rightarrow> exn" where
  "JWTClaimsError msg = PyException ''JWTClaimsError'' msg"

definition ExpiredSignatureError :: "string \<Rightarrow> exn" where
  "ExpiredSignatureError msg = PyException ''ExpiredSignatureError'' msg"

definition is_JWTError :: "exn \<Rightarrow> bool" where
  \<comment> \<open>what \<open>except JWTError\<close> catches: the class and its two subclasses\<close>
  "is_JWTError e =
     (case e of
        HTTPException st detail \<Rightarrow> False
      | PyException cls msg \<Rightarrow> cls \<in> set [''JWTError'', ''JWTClaimsError'', ''ExpiredSignatureError''])"

fun claim_int :: "string \<Rightarrow> jval \<Rightarrow> exn + int" where
  \<comment> \<open>\<open>int(claims[name])\<close> inside \<open>try ... except ValueError\<close>; a \<open>TypeError\<close> is not caught\<close>
  "claim_int msg (JInt i) = Inr i"
| "claim_int msg (JBool b) = Inr (if b then 1 else 0)"
| "claim_int msg (JStr s) =
     (case py_int_str s of None \<Rightarrow> Inl (JWTClaimsError msg) | Some i \<Rightarrow> Inr i)"
| "claim_int msg v =
     Inl (PyException ''TypeError'' ''int() argument must be a string, a bytes-like object or a real number'')"

definition validate_iat :: "claims \<Rightarrow> exn + unit" where
  "validate_iat c =
     (case c ''iat'' of
        None \<Rightarrow> Inr ()
      | Some v \<Rightarrow>
          (case claim_int ''Issued At claim (iat) must be an integer.'' v of
             Inl e \<Rightarrow> Inl e
           | Inr i \<Rightarrow> Inr ()))"

definition validate_nbf :: "int \<Rightarrow> claims \<Rightarrow> exn + unit" where
  "validate_nbf now c =
     (case c ''nbf'' of
        None \<Rightarrow> Inr ()
      | Some v \<Rightarrow>
          (case claim_int ''Not Before claim (nbf) must be an integer.'' v of
             Inl e \<Rightarrow> Inl e
           | Inr nbf \<Rightarrow>
               if nbf > now then Inl (JWTClaimsError ''The token is not yet valid (nbf)'')
               else Inr ()))"

definition validate_exp :: "int \<Rightarrow> claims \<Rightarrow> exn + unit" where
  "validate_exp now c =
     (case c ''exp'' of
        None \<Rightarrow> Inr ()
      | Some v \<Rightarrow>
          (case claim_int ''Expiration Time claim (exp) must be an integer.'' v of
             Inl e \<Rightarrow> Inl e
           | Inr ex \<Rightarrow>
               if ex < now then Inl (ExpiredSignatureError ''Signature has expired.'')
               else Inr ()))"

fun is_str_list :: "jval list \<Rightarrow> bool" where
  "is_str_list [] = True"
| "is_str_list (JStr s # vs) = is_str_list vs"
| "is_str_list (v # vs) = False"

fun validate_aud :: "claims \<Rightarrow> exn + unit" where
  \<comment> \<open>no audience is passed to \<open>decode\<close>, and \<open>None\<close> is in no list of strings\<close>
  "validate_aud c =
     (case c ''aud'' of
        None \<Rightarrow> Inr ()
      | Some (JStr a) \<Rightarrow> Inl (JWTClaimsError ''Invalid audience'')
      | Some (JArr vs) \<Rightarrow>
          if is_str_list vs then Inl (JWTClaimsError ''Invalid audience'')
          else Inl (JWTClaimsError ''Invalid claim format in token'')
      | Some v \<Rightarrow> Inl (JWTClaimsError ''Invalid claim format in token''))"

fun validate_str_claim :: "string \<Rightarrow> string \<Rightarrow> claims \<Rightarrow> exn + unit" where
  \<comment> \<open>the check of \<open>sub\<close> and of \<open>jti\<close>: when present, a string\<close>
  "validate_str_claim nm msg c =
     (case c nm of
        None \<Rightarrow> Inr ()
      | Some (JStr s) \<Rightarrow> Inr ()
      | Some v \<Rightarrow> Inl (JWTClaimsError msg))"

definition validate_at_hash :: "claims \<Rightarrow> exn + unit" where
  \<comment> \<open>no access token is passed to \<open>decode\<close>\<close>
  "validate_at_hash c =
     (case c ''at_hash'' of
        None \<Rightarrow> Inr ()
      | Some v \<Rightarrow> Inl (JWTClaimsError ''No access_token provided to compare against at_hash claim.''))"

fun first_failure :: "(exn + unit) list \<Rightarrow> exn + unit" where
  "first_failure [] = Inr ()"
| "first_failure (Inl e # rs) = Inl e"
| "first_failure (Inr u # rs) = first_failure rs"

definition validate_claims :: "int \<Rightarrow> claims \<Rightarrow> exn + unit" where
  \<comment> \<open>the checks in the order the library makes them; no issuer is passed, so \<open>iss\<close> is not checked\<close>
  "validate_claims now c =
     first_failure
       [validate_iat c, validate_nbf now c, validate_exp now c, validate_aud c,
        validate_str_claim ''sub'' ''Subject must be a string.'' c,
        validate_str_claim ''jti'' ''JWT ID must be a string.'' c,
        validate_at_hash c]"

definition jwt_decode :: "int \<Rightarrow> token \<Rightarrow> string \<Rightarrow> string list \<Rightarrow> exn + claims" where
  \<comment> \<open>\<open>jwt.decode(token, key, algorithms)\<close>; the first argument is the time of the call\<close>
  "jwt_decode now tok key algorithms =
     (case tok of
        Malformed \<Rightarrow> Inl (JWTError ''Not enough segments'')
      | Jwt alg p sg \<Rightarrow>
          if alg \<in> set algorithms \<and> sg = Hmac key alg p then
            (case p of
               Unparsable \<Rightarrow> Inl (JWTError ''Invalid payload string'')
             | Claims c \<Rightarrow>
                 (case validate_claims now c of
                    Inl e \<Rightarrow> Inl e
                  | Inr u \<Rightarrow> Inr c))
          else Inl (JWTError ''Signature verification failed.''))"

subsection \<open>Issuing and verifying\<close>

definition create_access_token :: "string \<Rightarrow> int \<Rightarrow> claims \<Rightarrow> int option \<Rightarrow> token" where
  \<comment> \<open>the first two arguments are \<open>SECRET_KEY\<close> and \<open>datetime.utcnow()\<close>; a zero
      \<open>timedelta\<close> is falsy, like \<open>None\<close>\<close>
  "create_access_token secret now data expires_delta =
     (let expire =
            (case expires_delta of
               Some d \<Rightarrow> if d \<noteq> 0 then now + d else now + minutes 15
             | None \<Rightarrow> now + minutes 15);
          to_encode = data(''exp'' \<mapsto> JInt expire)
      in jwt_encode to_encode secret ALGORITHM)"

definition credentials_exception :: exn where
  "credentials_exception = HTTPException 401 ''Invalid authentication credentials''"

definition verify_token :: "string \<Rightarrow> int \<Rightarrow> token \<Rightarrow> exn + jval" where
  \<comment> \<open>returns \<open>payload.get("sub")\<close>; an exception that is no \<open>JWTError\<close> passes through\<close>
  "verify_token secret now tok =
     (case jwt_decode now tok secret [ALGORITHM] of
        Inl e \<Rightarrow> if is_JWTError e then Inl credentials_exception else Inl e
      | Inr payload \<Rightarrow>
          (case payload ''sub'' of
             None \<Rightarrow> Inl credentials_exception
           | Some username \<Rightarrow> Inr username))"

definition get_current_user :: "string \<Rightarrow> int \<Rightarrow> token \<Rightarrow> exn + jval" where
  "get_current_user secret now tok = verify_token secret now tok"

datatype pwhash = Bcrypt string

definition verify_password :: "string \<Rightarrow> pwhash \<Rightarrow> bool" where
  \<comment> \<open>symbolic: a hash verifies exactly the password it was made from\<close>
  "verify_password plain_password hashed = (hashed = Bcrypt plain_password)"

record UserInDB =
  username :: string
  user_email :: string
  full_name :: "string option"
  hashed_password :: pwhash

definition authenticate_user :: "(string \<rightharpoonup> UserInDB) \<Rightarrow> string \<Rightarrow> string \<Rightarrow> UserInDB option" where
  "authenticate_user db uname password =
     (case db uname of
        None \<Rightarrow> None
      | Some user \<Rightarrow> if \<not> verify_password password (hashed_password user) then None else Some user)"

record Token =
  access_token :: token
  token_type :: string

definition login ::
  "string \<Rightarrow> int \<Rightarrow> (string \<rightharpoonup> UserInDB) \<Rightarrow> string \<Rightarrow> string \<Rightarrow> exn + Token" where
  "login secret now db uname password =
     (case authenticate_user db uname password of
        None \<Rightarrow> Inl (HTTPException 401 ''Incorrect username or password'')
      | Some user_in_db \<Rightarrow>
          let access_token_expires = minutes ACCESS_TOKEN_EXPIRE_MINUTES;
              tok = create_access_token secret now [''sub'' \<mapsto> JStr (username user_in_db)]
                      (Some access_token_expires)
          in Inr \<lparr>access_token = tok, token_type = ''bearer''\<rparr>)"

section \<open>Predicates used in the statements\<close>

definition name_chars_ok :: "string \<Rightarrow> bool" where
  \<comment> \<open>only alphabetic characters and spaces\<close>
  "name_chars_ok v = list_all (\<lambda>c. py_isalpha_char c \<or> c = CHR '' '') v"

definition onboarding_record :: "string \<Rightarrow> string \<Rightarrow> pyval \<Rightarrow> raw_record" where
  \<comment> \<open>the record \<open>{name, email, age}\<close>\<close>
  "onboarding_record n e a = [''name'' \<mapsto> PyStr n, ''email'' \<mapsto> PyStr e, ''age'' \<mapsto> a]"

definition target_path :: "UploadFile \<Rightarrow> path" where
  \<comment> \<open>\<open>UPLOAD_DIR / os.path.basename(file.filename)\<close>\<close>
  "target_path file = path_join UPLOAD_DIR (basename (filename file))"

definition renamed_path :: "nat \<Rightarrow> path \<Rightarrow> path" where
  \<comment> \<open>\<open>UPLOAD_DIR / f"{stem}_{timestamp}{suffix}"\<close>\<close>
  "renamed_path now fp = path_join UPLOAD_DIR (path_stem fp @ ''_'' @ string_of_nat now @ path_suffix fp)"

definition stored_path :: "nat \<Rightarrow> filesystem \<Rightarrow> UploadFile \<Rightarrow> path" where
  \<comment> \<open>where an accepted upload is written\<close>
  "stored_path now fs file =
     (if path_exists (ensure_upload_dir fs) (target_path file)
      then renamed_path now (target_path file) else target_path file)"

definition differs_only_in_case :: "string \<Rightarrow> string \<Rightarrow> bool" where
  "differs_only_in_case s a = (s \<noteq> a \<and> py_lower s = py_lower a)"

definition record_valid :: "raw_record \<Rightarrow> bool" where
  "record_valid r = (case validate_onboarding_data r of Inl errs \<Rightarrow> False | Inr v \<Rightarrow> True)"

definition json_rows_libs :: "raw_record list \<Rightarrow> libs" where
  \<comment> \<open>libraries that read the given rows from every tabular file, and a downstream service that answers 200\<close>
  "json_rows_libs rows =
     \<lparr>pd_read_json = (\<lambda>bytes. Inr rows),
      pd_read_csv = (\<lambda>bytes. Inr rows),
      pd_read_excel = (\<lambda>bytes. Inr rows),
      pdfplumber_text = (\<lambda>bytes. Inr []),
      docx_document = (\<lambda>bytes. Inr []),
      session_post = (\<lambda>data. Inr (200, PyStr ''received''))\<rparr>"

definition token_claims :: "token \<Rightarrow> claims option" where
  "token_claims tok = (case tok of Jwt alg (Claims c) sg \<Rightarrow> Some c | _ \<Rightarrow> None)"

definition signature_valid :: "string \<Rightarrow> token \<Rightarrow> bool" where
  "signature_valid secret tok =
     (case tok of Malformed \<Rightarrow> False | Jwt alg p sg \<Rightarrow> alg = ALGORITHM \<and> sg = Hmac secret alg p)"

definition payload_unparsable :: "token \<Rightarrow> bool" where
  "payload_unparsable tok = (token_claims tok = None)"

definition expiry_past :: "int \<Rightarrow> token \<Rightarrow> bool" where
  "expiry_past now tok =
     (case token_claims tok of
        None \<Rightarrow> False
      | Some c \<Rightarrow> (case c ''exp'' of Some (JInt e) \<Rightarrow> e < now | _ \<Rightarrow> False))"

definition sub_absent :: "token \<Rightarrow> bool" where
  "sub_absent tok = (case token_claims tok of None \<Rightarrow> False | Some c \<Rightarrow> c ''sub'' = None)"

definition str_or_absent :: "jval option \<Rightarrow> bool" where
  "str_or_absent v = (case v of None \<Rightarrow> True | Some (JStr s) \<Rightarrow> True | Some _ \<Rightarrow> False)"

definition int_or_absent :: "jval option \<Rightarrow> bool" where
  "int_or_absent v = (case v of None \<Rightarrow> True | Some (JInt i) \<Rightarrow> True | Some _ \<Rightarrow> False)"

definition sub_exp_only :: "token \<Rightarrow> bool" where
  \<comment> \<open>the payload, when there is one, holds no claims but a string \<open>sub\<close> and an integer
      \<open>exp\<close>: the payloads this service writes\<close>
  "sub_exp_only tok =
     (case token_claims tok of
        None \<Rightarrow> True
      | Some c \<Rightarrow> dom c \<subseteq> {''sub'', ''exp''} \<and> str_or_absent (c ''sub'') \<and> int_or_absent (c ''exp''))"

definition email_shape :: "string \<Rightarrow> bool" where
  \<comment> \<open>one or more characters, an \<open>@\<close>, one or more characters, a dot, one or more characters, none of them an \<open>@\<close>\<close>
  "email_shape w =
     (\<exists>a b d. w = a @ ''@'' @ b @ ''.'' @ d \<and> a \<noteq> [] \<and> b \<noteq> [] \<and> d \<noteq> []
        \<and> CHR ''@'' \<notin> set a \<and> CHR ''@'' \<notin> set b \<and> CHR ''@'' \<notin> set d)"

definition holds_email_match :: "string \<Rightarrow> bool" where
  \<comment> \<open>some substring has the shape of the pattern\<close>
  "holds_email_match e = (\<exists>p w q. e = p @ w @ q \<and> email_shape w)"

definition email_field_matches :: "raw_record \<Rightarrow> bool" where
  \<comment> \<open>the record has an email string that holds a match of the pattern\<close>
  "email_field_matches data =
     (case data ''email'' of Some (PyStr e) \<Rightarrow> holds_email_match e | _ \<Rightarrow> False)"

section \<open>Properties of the pattern matcher\<close>

text \<open>
  The matcher works with derivatives.  It agrees with the language of the expression:
  \<open>re_search\<close> holds exactly when some substring is in the language.  For the email
  pattern these substrings are the strings of the shape \<open>a@b.d\<close> with non-empty \<open>a\<close>,
  \<open>b\<close>, \<open>d\<close> free of \<open>@\<close>.
\<close>

lemma conc_iff: "w \<in> conc A B \<longleftrightarrow> (\<exists>u v. w = u @ v \<and> u \<in> A \<and> v \<in> B)"
  by (auto simp: conc_def)

lemma conc_nil: "[] \<in> conc A B \<longleftrightarrow> [] \<in> A \<and> [] \<in> B"
  by (auto simp: conc_def)

lemma conc_cons:
  "a # w \<in> conc A B \<longleftrightarrow>
     ([] \<in> A \<and> a # w \<in> B) \<or> (\<exists>u v. w = u @ v \<and> a # u \<in> A \<and> v \<in> B)"
  by (auto simp: conc_def Cons_eq_append_conv)

lemma star_cons_split:
  assumes "x \<in> star A" and "x = a # w"
  shows "\<exists>u v. w = u @ v \<and> a # u \<in> A \<and> v \<in> star A"
  using assms
proof (induction arbitrary: w rule: star.induct)
  case star_empty
  then show ?case by simp
next
  case (star_step u v)
  show ?case
  proof (cases u)
    case Nil
    with star_step show ?thesis by simp
  next
    case (Cons b u')
    with star_step.prems have "b = a" and "w = u' @ v" by simp_all
    with Cons star_step.hyps show ?thesis by blast
  qed
qed

lemma star_cons:
  "a # w \<in> star A \<longleftrightarrow> (\<exists>u v. w = u @ v \<and> a # u \<in> A \<and> v \<in> star A)"
proof
  assume "a # w \<in> star A"
  then show "\<exists>u v. w = u @ v \<and> a # u \<in> A \<and> v \<in> star A"
    using star_cons_split by blast
next
  assume "\<exists>u v. w = u @ v \<and> a # u \<in> A \<and> v \<in> star A"
  then obtain u v where "w = u @ v" "a # u \<in> A" "v \<in> star A" by blast
  then show "a # w \<in> star A" using star_step [of "a # u" A v] by simp
qed

lemma nullable_lang: "nullable r \<longleftrightarrow> [] \<in> lang r"
  by (induction r) (auto simp: conc_nil star_empty)

lemma deriv_lang: "w \<in> lang (deriv a r) \<longleftrightarrow> a # w \<in> lang r"
proof (induction r arbitrary: w)
  case (Seq r s)
  have A: "w \<in> conc (lang (deriv a r)) (lang s)
           \<longleftrightarrow> (\<exists>u v. w = u @ v \<and> a # u \<in> lang r \<and> v \<in> lang s)"
    by (simp add: conc_iff Seq.IH)
  show ?case
  proof (cases "nullable r")
    case True
    then have "[] \<in> lang r" by (simp add: nullable_lang)
    with True A show ?thesis by (auto simp: conc_cons Seq.IH)
  next
    case False
    then have "[] \<notin> lang r" by (simp add: nullable_lang)
    with False A show ?thesis by (simp add: conc_cons)
  qed
next
  case (Star r)
  have "w \<in> conc (lang (deriv a r)) (star (lang r))
        \<longleftrightarrow> (\<exists>u v. w = u @ v \<and> a # u \<in> lang r \<and> v \<in> star (lang r))"
    by (simp add: conc_iff Star.IH)
  then show ?case by (simp add: star_cons)
qed auto

lemma match_prefix_lang: "match_prefix r s \<longleftrightarrow> (\<exists>u v. s = u @ v \<and> u \<in> lang r)"
proof (induction s arbitrary: r)
  case Nil
  then show ?case by (simp add: nullable_lang)
next
  case (Cons c cs)
  have "(\<exists>u v. c # cs = u @ v \<and> u \<in> lang r)
        \<longleftrightarrow> [] \<in> lang r \<or> (\<exists>u v. cs = u @ v \<and> c # u \<in> lang r)"
    by (auto simp: Cons_eq_append_conv)
  with Cons show ?case by (simp add: nullable_lang deriv_lang)
qed

lemma re_search_lang: "re_search r s \<longleftrightarrow> (\<exists>p u v. s = p @ u @ v \<and> u \<in> lang r)"
proof (induction s)
  case Nil
  then show ?case by (simp add: nullable_lang)
next
  case (Cons c cs)
  have "(\<exists>p u v. c # cs = p @ u @ v \<and> u \<in> lang r)
        \<longleftrightarrow> (\<exists>u v. c # cs = u @ v \<and> u \<in> lang r) \<or> (\<exists>p u v. cs = p @ u @ v \<and> u \<in> lang r)"
    (is "?L \<longleftrightarrow> ?A \<or> ?B")
  proof
    assume ?L
    then obtain p u v where s: "c # cs = p @ u @ v" and u: "u \<in> lang r" by blast
    show "?A \<or> ?B"
    proof (cases p)
      case Nil
      with s u show ?thesis by auto
    next
      case (Cons b p')
      with s have "cs = p' @ u @ v" by simp
      with u show ?thesis by blast
    qed
  next
    assume "?A \<or> ?B"
    then show ?L
    proof
      assume ?A
      then obtain u v where "c # cs = [] @ u @ v" "u \<in> lang r" by auto
      then show ?L by blast
    next
      assume ?B
      then obtain p u v where "cs = p @ u @ v" "u \<in> lang r" by blast
      then have "c # cs = (c # p) @ u @ v" by simp
      with \<open>u \<in> lang r\<close> show ?L by blast
    qed
  qed
  with Cons show ?case by (simp del: match_prefix.simps add: match_prefix_lang)
qed

lemma star_notchr: "w \<in> star {[d] | d. d \<noteq> c} \<longleftrightarrow> c \<notin> set w"
proof
  assume "w \<in> star {[d] | d. d \<noteq> c}"
  then show "c \<notin> set w" by (induction rule: star.induct) auto
next
  assume "c \<notin> set w"
  then show "w \<in> star {[d] | d. d \<noteq> c}"
  proof (induction w)
    case Nil
    show ?case by (rule star_empty)
  next
    case (Cons a w)
    then have "[a] \<in> {[d] | d. d \<noteq> c}" and "w \<in> star {[d] | d. d \<noteq> c}" by auto
    then have "[a] @ w \<in> star {[d] | d. d \<noteq> c}" by (rule star_step)
    then show ?case by simp
  qed
qed

lemma lang_one_or_more_notchr:
  "w \<in> lang (OneOrMore (NotChr c)) \<longleftrightarrow> w \<noteq> [] \<and> c \<notin> set w"
proof (cases w)
  case Nil
  then show ?thesis by (simp add: OneOrMore_def conc_def)
next
  case (Cons a v)
  then show ?thesis by (auto simp: OneOrMore_def conc_cons star_notchr)
qed

lemma lang_email_pattern: "w \<in> lang email_pattern \<longleftrightarrow> email_shape w"
proof -
  have "w \<in> lang email_pattern \<longleftrightarrow>
        (\<exists>a r1. w = a @ r1 \<and> a \<in> lang (OneOrMore (NotChr CHR ''@'')) \<and>
          (\<exists>r2. r1 = ''@'' @ r2 \<and>
            (\<exists>b r3. r2 = b @ r3 \<and> b \<in> lang (OneOrMore (NotChr CHR ''@'')) \<and>
              (\<exists>d. r3 = ''.'' @ d \<and> d \<in> lang (OneOrMore (NotChr CHR ''@''))))))"
    unfolding email_pattern_def lang.simps(6) conc_iff lang.simps(3) by blast
  also have "\<dots> \<longleftrightarrow> email_shape w"
    unfolding lang_one_or_more_notchr email_shape_def by blast
  finally show ?thesis .
qed

lemma re_search_email_pattern:
  "re_search email_pattern s \<longleftrightarrow> (\<exists>p w q. s = p @ w @ q \<and> email_shape w)"
  by (simp add: re_search_lang lang_email_pattern)

lemma re_search_holds_match: "re_search email_pattern s \<longleftrightarrow> holds_email_match s"
  by (simp add: re_search_email_pattern holds_email_match_def)

lemma email_shape_accepted: "email_shape e \<Longrightarrow> re_search email_pattern e"
proof -
  assume "email_shape e"
  moreover have "e = [] @ e @ []" by simp
  ultimately show ?thesis unfolding re_search_email_pattern by blast
qed

lemma email_shape_one_at: "email_shape w \<Longrightarrow> length (filter (\<lambda>c. c = CHR ''@'') w) = 1"
  by (auto simp: email_shape_def filter_empty_conv)

text \<open>
  The search is not anchored: a string with a second \<open>@\<close> does not have the shape as a
  whole, and still holds a match.
\<close>

lemma unanchored_match_accepted:
  "\<not> email_shape ''a@b.c@'' \<and> validate_email (Some (PyStr ''a@b.c@'')) = Inr ''a@b.c@''"
proof -
  have "length (filter (\<lambda>c. c = CHR ''@'') ''a@b.c@'') \<noteq> 1" by simp
  then have "\<not> email_shape ''a@b.c@''" using email_shape_one_at by blast
  moreover have "validate_email (Some (PyStr ''a@b.c@'')) = Inr ''a@b.c@''"
    by (simp add: email_pattern_def OneOrMore_def)
  ultimately show ?thesis by simp
qed

section \<open>Properties of record validation\<close>

lemmas validation_defs =
  validate_onboarding_data_def OnboardingDataModel_init_def model_dict_def onboarding_record_def

lemmas char_class_defs =
  py_isalpha_def py_isalpha_char_def remove_spaces_def name_must_be_alpha_def name_chars_ok_def
  is_digits_def is_digit_def nat_of_digits_def digit_val_def py_isspace_def py_strip_def

lemmas pattern_defs = email_pattern_def OneOrMore_def

lemma validate_email_mismatch:
  "\<not> email_field_matches data \<Longrightarrow> \<exists>e. validate_email (data ''email'') = Inl e"
  by (cases "data ''email''" rule: validate_email.cases)
     (auto simp: email_field_matches_def re_search_holds_match)

lemma init_email_error:
  assumes "validate_email (data ''email'') = Inl e"
  shows "\<exists>errs. OnboardingDataModel_init data = Inl errs \<and> (''email'', e) \<in> set errs"
  using assms by (auto simp: OnboardingDataModel_init_def Let_def split: sum.splits)

text \<open>
  C3, as stated, fails.  The string \<open>@a@b.c\<close> does not match the pattern: it is not in
  the language of the pattern, it does not have the shape \<open>a@b.d\<close>, and no prefix of it
  matches either.  It holds the match \<open>a@b.c\<close>, and the search of the validator is not
  anchored, so a record with this email passes validation.
\<close>

theorem unmatched_email_accepted:
  "''@a@b.c'' \<notin> lang email_pattern
   \<and> \<not> email_shape ''@a@b.c''
   \<and> \<not> match_prefix email_pattern ''@a@b.c''
   \<and> validate_onboarding_data (onboarding_record ''Jane Doe'' ''@a@b.c'' (PyInt 30))
       = Inr (onboarding_record ''Jane Doe'' ''@a@b.c'' (PyInt 30))"
proof -
  have "length (filter (\<lambda>c. c = CHR ''@'') ''@a@b.c'') \<noteq> 1" by simp
  then have 1: "\<not> email_shape ''@a@b.c''" using email_shape_one_at by blast
  then have 2: "''@a@b.c'' \<notin> lang email_pattern" by (simp add: lang_email_pattern)
  have 3: "\<not> match_prefix email_pattern ''@a@b.c''" by (simp add: pattern_defs)
  have 4: "validate_onboarding_data (onboarding_record ''Jane Doe'' ''@a@b.c'' (PyInt 30))
       = Inr (onboarding_record ''Jane Doe'' ''@a@b.c'' (PyInt 30))"
    by (simp add: validation_defs char_class_defs pattern_defs)
  from 1 2 3 4 show ?thesis by simp
qed

text \<open>
  C3, amended.  A record whose email field holds no match of the pattern
  \<open>[^@]+@[^@]+\.[^@]+\<close>, that is, no substring of the shape \<open>a@b.d\<close> with non-empty \<open>a\<close>,
  \<open>b\<close>, \<open>d\<close> free of \<open>@\<close>, is rejected: validation raises, and the error list names the
  \<open>email\<close> field.  A missing email and an email that is not a string hold no match
  either.
\<close>

theorem email_mismatch_fails:
  assumes "\<not> email_field_matches data"
  shows "\<exists>errs. validate_onboarding_data data = Inl errs \<and> ''email'' \<in> fst ` set errs"
proof -
  from assms obtain e where "validate_email (data ''email'') = Inl e"
    using validate_email_mismatch by blast
  then obtain errs where "OnboardingDataModel_init data = Inl errs" "(''email'', e) \<in> set errs"
    using init_email_error by blast
  then show ?thesis
    by (force simp: validate_onboarding_data_def)
qed

theorem email_mismatch_fails_witness:
  "\<not> email_field_matches (onboarding_record ''Jane Doe'' ''jane.example.com'' (PyInt 30))
   \<and> (\<exists>errs. validate_onboarding_data (onboarding_record ''Jane Doe'' ''jane.example.com'' (PyInt 30))
                = Inl errs \<and> ''email'' \<in> fst ` set errs)"
proof -
  have "\<not> re_search email_pattern ''jane.example.com''" by (simp add: pattern_defs)
  then have nm: "\<not> holds_email_match ''jane.example.com''"
    using re_search_holds_match by blast
  have h: "\<not> email_field_matches (onboarding_record ''Jane Doe'' ''jane.example.com'' (PyInt 30))"
    by (simp add: email_field_matches_def onboarding_record_def nm)
  from email_mismatch_fails [OF h] h show ?thesis by simp
qed

lemma remove_spaces_alpha:
  "name_chars_ok v \<Longrightarrow> list_all py_isalpha_char (remove_spaces v)"
  by (induction v) (auto simp: name_chars_ok_def remove_spaces_def)

lemma remove_spaces_nonempty:
  "list_ex py_isalpha_char v \<Longrightarrow> remove_spaces v \<noteq> []"
  by (induction v) (auto simp: remove_spaces_def py_isalpha_char_def)

lemma validate_name_ok:
  assumes "name_chars_ok v" "list_ex py_isalpha_char v"
  shows "validate_name (Some (PyStr v)) = Inr v"
proof -
  have "v \<noteq> []" using assms(2) by auto
  then have "\<not> length v < 1" by (cases v) auto
  moreover have "py_isalpha (remove_spaces v)"
    using assms by (simp add: py_isalpha_def remove_spaces_alpha remove_spaces_nonempty)
  ultimately show ?thesis by (simp add: name_must_be_alpha_def)
qed

text \<open>
  C8, as stated, fails.  The name \<open>" "\<close> is not empty and consists of alphabetic
  characters and spaces only, the email is well formed and the age is positive, yet the
  record is rejected: with its spaces removed the name is empty, and \<open>isalpha\<close> is false on
  the empty string.
\<close>

theorem blank_name_rejected:
  "'' '' \<noteq> [] \<and> name_chars_ok '' '' \<and> re_search email_pattern ''jane@x.com'' \<and> (0::int) < 30
   \<and> validate_onboarding_data (onboarding_record '' '' ''jane@x.com'' (PyInt 30))
       = Inl [(''name'', ValueErrorRaised)]"
  by (simp add: validation_defs char_class_defs pattern_defs)

text \<open>
  C8, amended.  A record \<open>{name, email, age}\<close> whose name has at least one alphabetic
  character and otherwise only alphabetic characters and spaces, whose email holds a match
  of the pattern, and whose age is an integer greater than 0, passes validation and is
  returned unchanged.
\<close>

theorem valid_record_unchanged:
  assumes "name_chars_ok n" and "list_ex py_isalpha_char n"
    and "re_search email_pattern e" and "0 < a"
  shows "validate_onboarding_data (onboarding_record n e (PyInt a))
         = Inr (onboarding_record n e (PyInt a))"
  using assms(3,4) validate_name_ok [OF assms(1,2)]
  by (simp add: validation_defs)

theorem valid_record_unchanged_witness:
  "name_chars_ok ''Jane Doe'' \<and> list_ex py_isalpha_char ''Jane Doe''
   \<and> re_search email_pattern ''jane@x.com'' \<and> (0::int) < 30
   \<and> validate_onboarding_data (onboarding_record ''Jane Doe'' ''jane@x.com'' (PyInt 30))
       = Inr (onboarding_record ''Jane Doe'' ''jane@x.com'' (PyInt 30))"
proof -
  have 1: "name_chars_ok ''Jane Doe''" by (simp add: char_class_defs)
  have 2: "list_ex py_isalpha_char ''Jane Doe''" by (simp add: char_class_defs)
  have 3: "re_search email_pattern ''jane@x.com''" by (simp add: pattern_defs)
  have 4: "(0::int) < 30" by simp
  from valid_record_unchanged [OF 1 2 3 4] 1 2 3 show ?thesis by simp
qed

lemma digit_not_rust_space: "is_digit c \<Longrightarrow> \<not> rust_isspace c"
  by (auto simp: is_digit_def rust_isspace_def Let_def)

lemma dropWhile_rust_digits: "list_all is_digit s \<Longrightarrow> dropWhile rust_isspace s = s"
  by (cases s) (auto simp: digit_not_rust_space)

lemma rust_trim_digits: "list_all is_digit s \<Longrightarrow> rust_trim s = s"
proof -
  assume a: "list_all is_digit s"
  then have "list_all is_digit (rev s)" by (simp add: list_all_iff)
  then show ?thesis using a by (simp add: rust_trim_def dropWhile_rust_digits)
qed

lemma utf8_len_digits: "list_all is_digit s \<Longrightarrow> utf8_len s = length s"
proof -
  assume "list_all is_digit s"
  then have "filter (\<lambda>c. 128 \<le> (of_char c :: nat)) s = []"
    by (auto simp: filter_empty_conv list_all_iff is_digit_def Let_def)
  then show ?thesis by (simp add: utf8_len_def)
qed

lemma digit_not_sign: "is_digit c \<Longrightarrow> c \<noteq> CHR ''-'' \<and> c \<noteq> CHR ''+''"
  by (auto simp: is_digit_def)

lemma parse_int_digits:
  assumes "is_digits s"
  shows "parse_int s = Some (int (nat_of_digits s))"
proof -
  from assms obtain c ds where s: "s = c # ds" and c: "is_digit c"
    by (cases s) (auto simp: is_digits_def)
  show ?thesis using assms s digit_not_sign [OF c] by (simp add: parse_int_def)
qed

lemma parse_big_digits:
  assumes "is_digits s"
  shows "parse_big s = Some (int (nat_of_digits s))"
proof -
  from assms obtain c ds where s: "s = c # ds" and c: "is_digit c" and ds: "list_all is_digit ds"
    by (cases s) (auto simp: is_digits_def)
  have f: "filter is_digit ds = ds" using ds by (simp add: list_all_iff)
  have a: "list_all (\<lambda>c. is_digit c \<or> c = CHR ''_'') ds" using ds by (simp add: list_all_iff)
  show ?thesis using s c f a digit_not_sign [OF c] by (simp add: parse_big_def)
qed

lemma parse_str_digits:
  "is_digits s \<Longrightarrow> parse_str s len = Some (int (nat_of_digits s))"
  by (simp add: parse_str_def parse_int_digits parse_big_digits)

lemma str_as_int_digits:
  assumes "is_digits s" and "length s \<le> 4300"
  shows "str_as_int s = Inr (int (nat_of_digits s))"
proof -
  have d: "list_all is_digit s" using assms(1) by (simp add: is_digits_def)
  have "rust_trim s = s" using d by (rule rust_trim_digits)
  moreover have "utf8_len s = length s" using d by (rule utf8_len_digits)
  ultimately show ?thesis using assms(2) parse_str_digits [OF assms(1)]
    by (simp add: str_as_int_def)
qed

lemma str_as_int_too_long:
  assumes "list_all is_digit s" and "4300 < length s"
  shows "str_as_int s = Inl IntParsingSize"
proof -
  have "rust_trim s = s" using assms(1) by (rule rust_trim_digits)
  moreover have "utf8_len s = length s" using assms(1) by (rule utf8_len_digits)
  ultimately show ?thesis using assms(2) by (simp add: str_as_int_def)
qed

text \<open>The decimal digits of a number are a digit string with that number as value.\<close>

lemma below_ten: "(d::nat) < 10 \<Longrightarrow> d = 0 \<or> d = 1 \<or> d = 2 \<or> d = 3 \<or> d = 4 \<or> d = 5 \<or> d = 6 \<or> d = 7 \<or> d = 8 \<or> d = 9"
  by arith

lemma digit_char_props:
  assumes "d < 10"
  shows "is_digit (digit_char d) \<and> digit_val (digit_char d) = d"
  using below_ten [OF assms]
  by (elim disjE) (simp_all add: digit_char_def is_digit_def digit_val_def)

lemma nat_of_digits_snoc: "nat_of_digits (xs @ [c]) = 10 * nat_of_digits xs + digit_val c"
  by (simp add: nat_of_digits_def)

lemma is_digits_snoc: "is_digits xs \<Longrightarrow> is_digit c \<Longrightarrow> is_digits (xs @ [c])"
  by (simp add: is_digits_def)

lemma string_of_nat_digits:
  "is_digits (string_of_nat n) \<and> nat_of_digits (string_of_nat n) = n"
proof (induction n rule: string_of_nat.induct)
  case (1 n)
  show ?case
  proof (cases "n < 10")
    case True
    then have "string_of_nat n = [digit_char n]" by (subst string_of_nat.simps) simp
    with digit_char_props [OF True] show ?thesis
      by (simp add: is_digits_def nat_of_digits_def)
  next
    case False
    then have s: "string_of_nat n = string_of_nat (n div 10) @ [digit_char (n mod 10)]"
      by (subst string_of_nat.simps) simp
    have d: "is_digit (digit_char (n mod 10)) \<and> digit_val (digit_char (n mod 10)) = n mod 10"
      by (rule digit_char_props) simp
    from 1 [OF False] d show ?thesis
      unfolding s by (simp add: nat_of_digits_snoc is_digits_snoc)
  qed
qed

lemma foldl_zeros:
  "foldl (\<lambda>acc c. 10 * acc + digit_val c) 0 (replicate k CHR ''0'') = 0"
  by (induction k) (simp_all add: digit_val_def)

lemma leading_zeros_value:
  "nat_of_digits (replicate k CHR ''0'' @ ds) = nat_of_digits ds"
  by (simp add: nat_of_digits_def foldl_zeros)

lemma leading_zeros_digits:
  "is_digits ds \<Longrightarrow> is_digits (replicate k CHR ''0'' @ ds)"
  by (auto simp: is_digits_def is_digit_def list_all_iff)

lemma zero_padded_decimal:
  "is_digits (replicate k CHR ''0'' @ string_of_nat n)
   \<and> nat_of_digits (replicate k CHR ''0'' @ string_of_nat n) = n"
  using string_of_nat_digits [of n] by (simp add: leading_zeros_value leading_zeros_digits)

lemma string_of_nat_power10: "string_of_nat (10 ^ k) = CHR ''1'' # replicate k CHR ''0''"
proof (induction k)
  case 0
  show ?case by (simp add: string_of_nat.simps digit_char_def)
next
  case (Suc k)
  have ge: "\<not> (10::nat) ^ Suc k < 10" by simp
  have "string_of_nat (10 ^ Suc k)
        = string_of_nat (10 ^ Suc k div 10) @ [digit_char (10 ^ Suc k mod 10)]"
    using ge by (subst string_of_nat.simps) simp
  also have "\<dots> = string_of_nat (10 ^ k) @ [digit_char 0]" by simp
  also have "\<dots> = CHR ''1'' # replicate (Suc k) CHR ''0''"
    by (simp add: Suc.IH digit_char_def replicate_append_same)
  finally show ?case .
qed

lemma age_error_only:
  assumes "validate_name (data ''name'') = Inr nm"
    and "validate_email (data ''email'') = Inr e"
    and "validate_age (data ''age'') = Inl x"
  shows "validate_onboarding_data data = Inl [(''age'', x)]"
  using assms by (simp add: validate_onboarding_data_def OnboardingDataModel_init_def)

lemma oversize_age_rejected:
  assumes "4300 \<le> k"
  shows "validate_onboarding_data
           (onboarding_record ''Jane Doe'' ''jane@x.com'' (PyStr (string_of_nat (10 ^ k))))
         = Inl [(''age'', IntParsingSize)]"
proof -
  let ?s = "string_of_nat (10 ^ k)"
  let ?d = "onboarding_record ''Jane Doe'' ''jane@x.com'' (PyStr ?s)"
  have s: "?s = CHR ''1'' # replicate k CHR ''0''" by (rule string_of_nat_power10)
  have "list_all is_digit ?s" using string_of_nat_digits [of "10 ^ k"] by (simp add: is_digits_def)
  moreover have "4300 < length ?s" using assms by (simp add: s)
  ultimately have a: "str_as_int ?s = Inl IntParsingSize" by (rule str_as_int_too_long)
  have n: "validate_name (?d ''name'') = Inr ''Jane Doe''"
    by (simp add: onboarding_record_def char_class_defs)
  have e: "validate_email (?d ''email'') = Inr ''jane@x.com''"
    by (simp add: onboarding_record_def pattern_defs)
  have "?d ''age'' = Some (PyStr ?s)" by (simp add: onboarding_record_def)
  then have g: "validate_age (?d ''age'') = Inl IntParsingSize" using a by simp
  from n e g show ?thesis by (rule age_error_only)
qed

text \<open>
  C9, as stated, fails.  \<open>10 ^ 4300\<close> is a positive integer; its decimal digits are a one
  and 4300 zeros, a string of 4301 characters.  The conversion of a string to an integer
  refuses a string longer than 4300, so the record is rejected.
\<close>

theorem oversize_digit_string_rejected:
  "0 < (10::nat) ^ 4300
   \<and> length (string_of_nat (10 ^ 4300)) = 4301
   \<and> validate_onboarding_data
       (onboarding_record ''Jane Doe'' ''jane@x.com'' (PyStr (string_of_nat (10 ^ 4300))))
     = Inl [(''age'', IntParsingSize)]"
proof (intro conjI)
  show "0 < (10::nat) ^ 4300" by (rule zero_less_power) simp
  show "length (string_of_nat (10 ^ 4300)) = 4301"
    by (simp only: string_of_nat_power10 list.size length_replicate)
  show "validate_onboarding_data
       (onboarding_record ''Jane Doe'' ''jane@x.com'' (PyStr (string_of_nat (10 ^ 4300))))
     = Inl [(''age'', IntParsingSize)]"
    by (rule oversize_age_rejected) simp
qed

text \<open>
  C9, amended.  In a record whose name and email pass their checks and whose age is a
  string of at most 4300 characters made of the decimal digits of a positive integer \<open>n\<close>
  (leading zeros allowed), validation succeeds, and the record returned holds the age as
  the integer \<open>n\<close>, no longer as a string.
\<close>

theorem digit_string_age_coerced:
  assumes "validate_name (data ''name'') = Inr nm"
    and "validate_email (data ''email'') = Inr e"
    and "data ''age'' = Some (PyStr (replicate k CHR ''0'' @ string_of_nat n))"
    and "0 < n"
    and "length (replicate k CHR ''0'' @ string_of_nat n) \<le> 4300"
  shows "validate_onboarding_data data = Inr (onboarding_record nm e (PyInt (int n)))"
proof -
  let ?s = "replicate k CHR ''0'' @ string_of_nat n"
  have "is_digits ?s" and v: "nat_of_digits ?s = n" using zero_padded_decimal by simp_all
  then have "str_as_int ?s = Inr (int n)" using assms(5) str_as_int_digits by simp
  then show ?thesis using assms(1,2,3,4) by (simp add: validation_defs)
qed

theorem digit_string_age_coerced_witness:
  "string_of_nat 30 = ''30''
   \<and> validate_onboarding_data (onboarding_record ''Jane Doe'' ''jane@x.com'' (PyStr ''30''))
       = Inr (onboarding_record ''Jane Doe'' ''jane@x.com'' (PyInt 30))
   \<and> validate_onboarding_data (onboarding_record ''Jane Doe'' ''jane@x.com'' (PyStr ''007''))
       = Inr (onboarding_record ''Jane Doe'' ''jane@x.com'' (PyInt 7))"
proof -
  let ?d = "\<lambda>a. onboarding_record ''Jane Doe'' ''jane@x.com'' (PyStr a)"
  have n: "\<And>a. validate_name (?d a ''name'') = Inr ''Jane Doe''"
    by (simp add: onboarding_record_def char_class_defs)
  have e: "\<And>a. validate_email (?d a ''email'') = Inr ''jane@x.com''"
    by (simp add: onboarding_record_def pattern_defs)
  have s30: "string_of_nat 30 = ''30''" by (simp add: string_of_nat.simps digit_char_def)
  have s7: "string_of_nat 7 = ''7''" by (simp add: string_of_nat.simps digit_char_def)
  have a30: "?d ''30'' ''age'' = Some (PyStr (replicate 0 CHR ''0'' @ string_of_nat 30))"
    by (simp add: onboarding_record_def s30)
  have a7: "?d ''007'' ''age'' = Some (PyStr (replicate 2 CHR ''0'' @ string_of_nat 7))"
    by (simp add: onboarding_record_def s7 numeral_2_eq_2)
  have l30: "length (replicate 0 CHR ''0'' @ string_of_nat 30) \<le> 4300" by (simp add: s30)
  have l7: "length (replicate 2 CHR ''0'' @ string_of_nat 7) \<le> 4300" by (simp add: s7)
  have 1: "validate_onboarding_data (?d ''30'')
           = Inr (onboarding_record ''Jane Doe'' ''jane@x.com'' (PyInt (int 30)))"
    using n e a30 _ l30 by (rule digit_string_age_coerced) simp
  have 2: "validate_onboarding_data (?d ''007'')
           = Inr (onboarding_record ''Jane Doe'' ''jane@x.com'' (PyInt (int 7)))"
    using n e a7 _ l7 by (rule digit_string_age_coerced) simp
  from s30 1 2 show ?thesis by simp
qed

section \<open>Properties of file materialisation\<close>

lemmas path_defs = UPLOAD_DIR_def basename_def path_join_def path_suffix_def path_name_def has_suffix_def
    before_last_dot_def after_last_dot_def ALLOWED_SUFFIXES_def path_stem_def target_path_def

lemmas save_defs = save_and_validate_file_def ensure_upload_dir_def path_exists_def open_wb_def
    string_of_nat.simps digit_char_def Let_def

lemma save_rejects:
  assumes "path_suffix (target_path file) \<notin> set ALLOWED_SUFFIXES"
  shows "save_and_validate_file now fs file
         = (Inl (HTTPException 400 ''Unsupported file type''), ensure_upload_dir fs)"
  using assms by (simp add: save_and_validate_file_def target_path_def Let_def)

lemma basename_no_slash: "CHR ''/'' \<notin> set (basename p)"
proof -
  have "\<forall>c \<in> set (takeWhile (\<lambda>c. c \<noteq> CHR ''/'') (rev p)). c \<noteq> CHR ''/''"
    by (auto dest: set_takeWhileD)
  then show ?thesis by (auto simp: basename_def)
qed

lemma before_last_dot_subset: "set (before_last_dot nm) \<subseteq> set nm"
proof -
  have "set (tl (dropWhile (\<lambda>c. c \<noteq> CHR ''.'') (rev nm))) \<subseteq> set (rev nm)"
  proof
    fix c assume "c \<in> set (tl (dropWhile (\<lambda>c. c \<noteq> CHR ''.'') (rev nm)))"
    then have "c \<in> set (dropWhile (\<lambda>c. c \<noteq> CHR ''.'') (rev nm))"
      by (cases "dropWhile (\<lambda>c. c \<noteq> CHR ''.'') (rev nm)") auto
    then show "c \<in> set (rev nm)" by (rule set_dropWhileD)
  qed
  then show ?thesis by (simp add: before_last_dot_def)
qed

lemma after_last_dot_subset: "set (after_last_dot nm) \<subseteq> set nm"
proof -
  have "set (takeWhile (\<lambda>c. c \<noteq> CHR ''.'') (rev nm)) \<subseteq> set (rev nm)"
    by (auto dest: set_takeWhileD)
  then show ?thesis by (simp add: after_last_dot_def)
qed

lemma digit_char_no_slash: "digit_char d \<noteq> CHR ''/''"
proof -
  have "d mod 10 < length ''0123456789''" by simp
  then have "''0123456789'' ! (d mod 10) \<in> set ''0123456789''" by (rule nth_mem)
  then show ?thesis unfolding digit_char_def by auto
qed

lemma string_of_nat_no_slash: "CHR ''/'' \<notin> set (string_of_nat n)"
proof (induction n rule: string_of_nat.induct)
  case (1 n)
  show ?case
  proof (cases "n < 10")
    case True
    then show ?thesis using digit_char_no_slash [of n]
      by (subst string_of_nat.simps) auto
  next
    case False
    then show ?thesis using 1 digit_char_no_slash [of "n mod 10"]
      by (subst string_of_nat.simps) auto
  qed
qed

lemma suffix_uploads: "path_suffix UPLOAD_DIR \<notin> set ALLOWED_SUFFIXES"
  by (simp add: path_defs)

lemma target_path_shape:
  assumes "path_suffix (target_path file) \<in> set ALLOWED_SUFFIXES"
  shows "target_path file = UPLOAD_DIR @ [basename (filename file)]"
proof -
  have "target_path file \<noteq> UPLOAD_DIR" using assms suffix_uploads by metis
  then show ?thesis by (auto simp: target_path_def path_join_def)
qed

lemma path_stem_no_slash:
  "CHR ''/'' \<notin> set (path_name p) \<Longrightarrow> CHR ''/'' \<notin> set (path_stem p)"
  using before_last_dot_subset by (auto simp: path_stem_def Let_def)

lemma path_suffix_no_slash:
  "CHR ''/'' \<notin> set (path_name p) \<Longrightarrow> CHR ''/'' \<notin> set (path_suffix p)"
  using after_last_dot_subset by (auto simp: path_suffix_def Let_def)

lemma save_accepts:
  assumes "path_suffix (target_path file) \<in> set ALLOWED_SUFFIXES"
  shows "save_and_validate_file now fs file =
         (case open_wb (ensure_upload_dir fs) (stored_path now fs file) (content file) of
            Inl e \<Rightarrow> (Inl e, ensure_upload_dir fs)
          | Inr fs' \<Rightarrow> (Inr (stored_path now fs file), fs'))"
  using assms
  by (simp add: save_and_validate_file_def target_path_def stored_path_def renamed_path_def Let_def
        split: sum.splits)

lemma save_accepted_suffix:
  assumes "fst (save_and_validate_file now fs file) = Inr p"
  shows "path_suffix (target_path file) \<in> set ALLOWED_SUFFIXES"
proof (rule ccontr)
  assume "path_suffix (target_path file) \<notin> set ALLOWED_SUFFIXES"
  then have "fst (save_and_validate_file now fs file) = Inl (HTTPException 400 ''Unsupported file type'')"
    by (simp add: save_rejects)
  with assms show False by simp
qed

lemma save_result_path:
  assumes "fst (save_and_validate_file now fs file) = Inr p"
  shows "p = stored_path now fs file"
proof -
  have ok: "path_suffix (target_path file) \<in> set ALLOWED_SUFFIXES"
    using assms by (rule save_accepted_suffix)
  show ?thesis
  proof (cases "open_wb (ensure_upload_dir fs) (stored_path now fs file) (content file)")
    case (Inl e)
    with assms save_accepts [OF ok, of now fs] show ?thesis by simp
  next
    case (Inr fs')
    with assms save_accepts [OF ok, of now fs] show ?thesis by simp
  qed
qed

lemma renamed_path_shape:
  assumes "CHR ''/'' \<notin> set (path_name fp)"
  shows "\<exists>nm. renamed_path now fp = UPLOAD_DIR @ [nm] \<and> CHR ''/'' \<notin> set nm"
proof -
  let ?new = "path_stem fp @ ''_'' @ string_of_nat now @ path_suffix fp"
  have slash: "CHR ''/'' \<notin> set ?new"
    using assms path_stem_no_slash [of fp] path_suffix_no_slash [of fp]
      string_of_nat_no_slash [of now] by simp
  have us: "CHR ''_'' \<in> set ?new" by simp
  have ne: "?new \<noteq> []" by simp
  have nd: "?new \<noteq> ''.''"
  proof
    assume "?new = ''.''"
    then have "set ?new = {CHR ''.''}" by simp
    with us show False by simp
  qed
  from ne nd have "renamed_path now fp = UPLOAD_DIR @ [?new]"
    unfolding renamed_path_def path_join_def by simp
  with slash show ?thesis by blast
qed

lemma save_path_shape:
  assumes "fst (save_and_validate_file now fs file) = Inr p"
  shows "\<exists>nm. p = UPLOAD_DIR @ [nm] \<and> CHR ''/'' \<notin> set nm"
proof -
  have ok: "path_suffix (target_path file) \<in> set ALLOWED_SUFFIXES"
    using assms by (rule save_accepted_suffix)
  then have t: "target_path file = UPLOAD_DIR @ [basename (filename file)]"
    by (rule target_path_shape)
  then have nm: "path_name (target_path file) = basename (filename file)"
    by (simp add: path_name_def)
  have p: "p = stored_path now fs file" using assms by (rule save_result_path)
  show ?thesis
  proof (cases "path_exists (ensure_upload_dir fs) (target_path file)")
    case True
    then have "p = renamed_path now (target_path file)" using p by (simp add: stored_path_def)
    moreover have "CHR ''/'' \<notin> set (path_name (target_path file))"
      using nm basename_no_slash by simp
    ultimately show ?thesis using renamed_path_shape by simp
  next
    case False
    then have "p = UPLOAD_DIR @ [basename (filename file)]" using p t by (simp add: stored_path_def)
    then show ?thesis using basename_no_slash by blast
  qed
qed

lemma renamed_path_eq:
  "renamed_path now fp = UPLOAD_DIR @ [path_stem fp @ ''_'' @ string_of_nat now @ path_suffix fp]"
proof -
  let ?new = "path_stem fp @ ''_'' @ string_of_nat now @ path_suffix fp"
  have us: "CHR ''_'' \<in> set ?new" by simp
  have ne: "?new \<noteq> []" by simp
  have nd: "?new \<noteq> ''.''"
  proof
    assume "?new = ''.''"
    then have "set ?new = {CHR ''.''}" by simp
    with us show False by simp
  qed
  from ne nd show ?thesis unfolding renamed_path_def path_join_def by simp
qed

lemma save_result_fs:
  assumes "fst (save_and_validate_file now fs file) = Inr p"
  shows "snd (save_and_validate_file now fs file) = (ensure_upload_dir fs)(p \<mapsto> File (content file))"
proof -
  have ok: "path_suffix (target_path file) \<in> set ALLOWED_SUFFIXES"
    using assms by (rule save_accepted_suffix)
  have p: "p = stored_path now fs file" using assms by (rule save_result_path)
  show ?thesis
  proof (cases "open_wb (ensure_upload_dir fs) (stored_path now fs file) (content file)")
    case (Inl e)
    with assms save_accepts [OF ok, of now fs] show ?thesis by simp
  next
    case (Inr fs')
    then have "fs' = (ensure_upload_dir fs)(stored_path now fs file \<mapsto> File (content file))"
      by (auto simp: open_wb_def split: if_splits)
    with Inr p save_accepts [OF ok, of now fs] show ?thesis by simp
  qed
qed

lemmas file_eval_defs = path_defs save_defs differs_only_in_case_def py_lower_def py_lower_char_def
  renamed_path_def stored_path_def char_of_def bit_0

text \<open>
  C5.  \<open>save\<close> works on the base name of the uploaded filename.  The suffix checked is the
  one of \<open>uploads/<base name>\<close>; whenever it is not one of \<open>.csv\<close>, \<open>.xlsx\<close>, \<open>.pdf\<close>,
  \<open>.docx\<close>, \<open>.json\<close> the call raises the 400 "Unsupported file type" and writes no file.
  This holds for every file system, so also when a file of that name exists already: the
  suffix is checked before the collision is looked at.  When the call returns a path, the
  base name holds no slash, the path is \<open>uploads/<base name>\<close> if no file of that name
  exists and \<open>uploads/<stem>_<time><suffix>\<close> of the base name otherwise, it lies directly
  in the upload directory, and the content of the upload is what is written there.
\<close>

theorem save_strips_and_rejects:
  "(path_suffix (target_path file) \<notin> set ALLOWED_SUFFIXES \<longrightarrow>
      save_and_validate_file now fs file
        = (Inl (HTTPException 400 ''Unsupported file type''), ensure_upload_dir fs))
   \<and> (\<forall>p. fst (save_and_validate_file now fs file) = Inr p \<longrightarrow>
          target_path file = UPLOAD_DIR @ [basename (filename file)]
          \<and> CHR ''/'' \<notin> set (basename (filename file))
          \<and> p = (if path_exists (ensure_upload_dir fs) (target_path file)
                 then UPLOAD_DIR @ [path_stem (target_path file) @ ''_'' @ string_of_nat now
                                    @ path_suffix (target_path file)]
                 else UPLOAD_DIR @ [basename (filename file)])
          \<and> CHR ''/'' \<notin> set (last p)
          \<and> snd (save_and_validate_file now fs file)
              = (ensure_upload_dir fs)(p \<mapsto> File (content file)))"
proof (intro conjI allI impI)
  assume "path_suffix (target_path file) \<notin> set ALLOWED_SUFFIXES"
  then show "save_and_validate_file now fs file
        = (Inl (HTTPException 400 ''Unsupported file type''), ensure_upload_dir fs)"
    by (rule save_rejects)
next
  fix p assume a: "fst (save_and_validate_file now fs file) = Inr p"
  have ok: "path_suffix (target_path file) \<in> set ALLOWED_SUFFIXES"
    using a by (rule save_accepted_suffix)
  then show t: "target_path file = UPLOAD_DIR @ [basename (filename file)]"
    by (rule target_path_shape)
  show "CHR ''/'' \<notin> set (basename (filename file))" by (rule basename_no_slash)
  have "p = stored_path now fs file" using a by (rule save_result_path)
  then show "p = (if path_exists (ensure_upload_dir fs) (target_path file)
                 then UPLOAD_DIR @ [path_stem (target_path file) @ ''_'' @ string_of_nat now
                                    @ path_suffix (target_path file)]
                 else UPLOAD_DIR @ [basename (filename file)])"
    using t by (simp add: stored_path_def renamed_path_eq)
  from save_path_shape [OF a] show "CHR ''/'' \<notin> set (last p)" by auto
  show "snd (save_and_validate_file now fs file)
              = (ensure_upload_dir fs)(p \<mapsto> File (content file))"
    using a by (rule save_result_fs)
qed

theorem save_strips_and_rejects_witness:
  "path_suffix (target_path \<lparr>filename = ''../notes.txt'', content_type = ''text/plain'', content = ''hi''\<rparr>)
     \<notin> set ALLOWED_SUFFIXES
   \<and> path_exists [[''uploads''] \<mapsto> Dir, [''uploads'', ''notes.txt''] \<mapsto> File ''old'']
        (target_path \<lparr>filename = ''../notes.txt'', content_type = ''text/plain'', content = ''hi''\<rparr>)
   \<and> fst (save_and_validate_file 100 [[''uploads''] \<mapsto> Dir, [''uploads'', ''notes.txt''] \<mapsto> File ''old'']
        \<lparr>filename = ''../notes.txt'', content_type = ''text/plain'', content = ''hi''\<rparr>)
       = Inl (HTTPException 400 ''Unsupported file type'')
   \<and> fst (save_and_validate_file 100 Map.empty
        \<lparr>filename = ''../../etc/data.csv'', content_type = ''text/csv'', content = ''a,b''\<rparr>)
       = Inr [''uploads'', ''data.csv'']
   \<and> snd (save_and_validate_file 100 Map.empty
        \<lparr>filename = ''../../etc/data.csv'', content_type = ''text/csv'', content = ''a,b''\<rparr>)
       [''uploads'', ''data.csv''] = Some (File ''a,b'')
   \<and> fst (save_and_validate_file 100 [[''uploads''] \<mapsto> Dir, [''uploads'', ''data.csv''] \<mapsto> File ''old'']
        \<lparr>filename = ''../../etc/data.csv'', content_type = ''text/csv'', content = ''a,b''\<rparr>)
       = Inr [''uploads'', ''data_100.csv'']"
proof -
  let ?F1 = "\<lparr>filename = ''../notes.txt'', content_type = ''text/plain'', content = ''hi''\<rparr>"
  let ?FS1 = "[[''uploads''] \<mapsto> Dir, [''uploads'', ''notes.txt''] \<mapsto> File ''old'']"
  let ?F2 = "\<lparr>filename = ''../../etc/data.csv'', content_type = ''text/csv'', content = ''a,b''\<rparr>"
  let ?FS2 = "[[''uploads''] \<mapsto> Dir, [''uploads'', ''data.csv''] \<mapsto> File ''old'']"
  have 1: "path_suffix (target_path ?F1) \<notin> set ALLOWED_SUFFIXES"
    by (simp add: path_defs)
  have 2: "path_exists ?FS1 (target_path ?F1)"
    by (simp add: path_defs path_exists_def)
  have 3: "fst (save_and_validate_file 100 Map.empty ?F2) = Inr [''uploads'', ''data.csv'']"
    by (simp add: path_defs save_defs)
  have 6: "fst (save_and_validate_file 100 ?FS2 ?F2) = Inr [''uploads'', ''data_100.csv'']"
    by (simp add: path_defs save_defs)
  from save_strips_and_rejects [of ?F1 100 ?FS1] 1
  have 4: "fst (save_and_validate_file 100 ?FS1 ?F1) = Inl (HTTPException 400 ''Unsupported file type'')"
    by simp
  from save_strips_and_rejects [of ?F2 100 Map.empty] 3
  have "snd (save_and_validate_file 100 Map.empty ?F2)
        = (ensure_upload_dir Map.empty)([''uploads'', ''data.csv''] \<mapsto> File (content ?F2))"
    by blast
  then have 5: "snd (save_and_validate_file 100 Map.empty ?F2) [''uploads'', ''data.csv''] = Some (File ''a,b'')"
    by simp
  from 1 2 3 4 5 6 show ?thesis by blast
qed

lemma allowed_lowercase: "a \<in> set ALLOWED_SUFFIXES \<Longrightarrow> py_lower a = a"
  by (auto simp: ALLOWED_SUFFIXES_def py_lower_def py_lower_char_def)

lemma case_variant_not_allowed:
  assumes "list_ex (differs_only_in_case s) ALLOWED_SUFFIXES"
  shows "s \<notin> set ALLOWED_SUFFIXES"
proof
  assume s: "s \<in> set ALLOWED_SUFFIXES"
  from assms obtain a where a: "a \<in> set ALLOWED_SUFFIXES" and d: "differs_only_in_case s a"
    by (auto simp: list_ex_iff)
  from d have "py_lower s = py_lower a" and "s \<noteq> a" by (simp_all add: differs_only_in_case_def)
  with allowed_lowercase [OF s] allowed_lowercase [OF a] show False by simp
qed

lemma empty_suffix_not_allowed: "[] \<notin> set ALLOWED_SUFFIXES"
  by (simp add: ALLOWED_SUFFIXES_def)

text \<open>
  C10.  The suffix check is case-sensitive.  A filename whose suffix differs from an
  allowed one only in letter case, and a filename without a suffix, are both rejected with
  the 400 "Unsupported file type".
\<close>

theorem save_suffix_case_sensitive:
  assumes "list_ex (differs_only_in_case (path_suffix (target_path file))) ALLOWED_SUFFIXES
           \<or> path_suffix (target_path file) = []"
  shows "save_and_validate_file now fs file
         = (Inl (HTTPException 400 ''Unsupported file type''), ensure_upload_dir fs)"
proof -
  have "path_suffix (target_path file) \<notin> set ALLOWED_SUFFIXES"
    using assms case_variant_not_allowed empty_suffix_not_allowed by metis
  then show ?thesis by (rule save_rejects)
qed

theorem save_suffix_case_sensitive_witness:
  "list_ex (differs_only_in_case
      (path_suffix (target_path \<lparr>filename = ''DATA.CSV'', content_type = ''text/csv'', content = ''a,b''\<rparr>)))
      ALLOWED_SUFFIXES
   \<and> fst (save_and_validate_file 100 Map.empty
        \<lparr>filename = ''DATA.CSV'', content_type = ''text/csv'', content = ''a,b''\<rparr>)
       = Inl (HTTPException 400 ''Unsupported file type'')
   \<and> path_suffix (target_path \<lparr>filename = ''README'', content_type = ''text/csv'', content = ''a,b''\<rparr>) = []
   \<and> fst (save_and_validate_file 100 Map.empty
        \<lparr>filename = ''README'', content_type = ''text/csv'', content = ''a,b''\<rparr>)
       = Inl (HTTPException 400 ''Unsupported file type'')"
proof -
  let ?F1 = "\<lparr>filename = ''DATA.CSV'', content_type = ''text/csv'', content = ''a,b''\<rparr>"
  let ?F2 = "\<lparr>filename = ''README'', content_type = ''text/csv'', content = ''a,b''\<rparr>"
  have 1: "list_ex (differs_only_in_case (path_suffix (target_path ?F1))) ALLOWED_SUFFIXES"
    by (simp add: file_eval_defs)
  have 2: "path_suffix (target_path ?F2) = []"
    by (simp add: path_defs)
  from 1 have 3: "fst (save_and_validate_file 100 Map.empty ?F1) = Inl (HTTPException 400 ''Unsupported file type'')"
    by (simp add: save_suffix_case_sensitive)
  from 2 have 4: "fst (save_and_validate_file 100 Map.empty ?F2) = Inl (HTTPException 400 ''Unsupported file type'')"
    by (simp add: save_suffix_case_sensitive)
  from 1 2 3 4 show ?thesis by blast
qed

text \<open>
  When the target exists, an upload that is saved is written under \<open>stem_<time>suffix\<close>.
\<close>

lemma collision_renames:
  assumes "path_suffix (target_path file) \<in> set ALLOWED_SUFFIXES"
    and "path_exists (ensure_upload_dir fs) (target_path file)"
    and "fst (save_and_validate_file now fs file) = Inr p"
  shows "p = path_join UPLOAD_DIR
               (path_stem (target_path file) @ ''_'' @ string_of_nat now @ path_suffix (target_path file))
         \<and> snd (save_and_validate_file now fs file) p = Some (File (content file))"
proof -
  have p: "p = stored_path now fs file" using assms(3) by (rule save_result_path)
  then have 1: "p = renamed_path now (target_path file)" using assms(2) by (simp add: stored_path_def)
  have 2: "snd (save_and_validate_file now fs file) p = Some (File (content file))"
    using assms(3) p save_accepts [OF assms(1), of now fs]
    by (auto simp: open_wb_def split: sum.splits if_splits)
  from 1 2 show ?thesis by (simp add: renamed_path_def)
qed

text \<open>
  C6 at a failing input.  \<open>uploads/a.csv\<close> exists, and \<open>a.csv\<close> is uploaded twice within
  the same second (time 100).  Both uploads collide with \<open>a.csv\<close>, both are renamed to
  \<open>a_100.csv\<close>, and the second overwrites the first: afterwards no file holds the bytes
  of the first upload.
\<close>

theorem same_second_uploads_overwrite:
  "(let fs0 = [[''uploads''] \<mapsto> Dir, [''uploads'', ''a.csv''] \<mapsto> File ''old''];
        (r1, fs1) = save_and_validate_file 100 fs0
                      \<lparr>filename = ''a.csv'', content_type = ''text/csv'', content = ''first''\<rparr>;
        (r2, fs2) = save_and_validate_file 100 fs1
                      \<lparr>filename = ''a.csv'', content_type = ''text/csv'', content = ''second''\<rparr>
    in r1 = Inr [''uploads'', ''a_100.csv'']
       \<and> fs1 [''uploads'', ''a_100.csv''] = Some (File ''first'')
       \<and> r2 = Inr [''uploads'', ''a_100.csv'']
       \<and> fs2 [''uploads'', ''a_100.csv''] = Some (File ''second'')
       \<and> (\<forall>p. fs2 p \<noteq> Some (File ''first'')))"
  by (simp add: path_defs save_defs)

section \<open>Properties of the upload pipeline\<close>

lemmas pdf_defs = handle_pdf_def handle_pdf_body_def pdf_line_def load_global_def upload_globals_def
  startswith_def py_lower_def py_lower_char_def py_strip_def py_isspace_def py_split_def
  Let_def

lemma load_global_re: "load_global ''re'' = Inl (PyException ''NameError'' (''name '' @ [CHR 0x27] @ ''re'' @ [CHR 0x27] @ '' is not defined''))"
  by (simp add: load_global_def upload_globals_def)

text \<open>
  C2 at a failing input.  The PDF has one page with the one line
  \<open>John Doe john@x.com 30\<close>.  The line is not a header, its first token with an \<open>@\<close> is the
  email and the token after it is all digits, so the claim has it accepted as the record
  \<open>{name: "John Doe", email: "john@x.com", age: 30}\<close>.  The code reaches \<open>re.match\<close>, and
  the module never imports \<open>re\<close>: the read of the name raises \<open>NameError\<close>, the handler of
  \<open>handle_pdf\<close> catches it, and extraction fails.
\<close>

theorem handle_pdf_name_error:
  "handle_pdf (Inr [''John Doe john@x.com 30''])
   = Inl (HTTPException 400
       (''Error processing PDF file: name '' @ [CHR 0x27] @ ''re'' @ [CHR 0x27] @ '' is not defined''))"
  by (simp add: pdf_defs)

text \<open>
  No line is ever accepted: a line that gets as far as the digit test raises, every other
  line is skipped.  So \<open>handle_pdf\<close> fails on every document.
\<close>

lemma pdf_line_keeps: "pdf_line acc line = Inr acc' \<Longrightarrow> acc' = acc"
  by (auto simp: pdf_line_def load_global_re Let_def split: if_splits option.splits)

lemma pdf_lines_keeps: "pdf_lines acc ls = Inr acc' \<Longrightarrow> acc' = acc"
proof (induction ls arbitrary: acc)
  case Nil
  then show ?case by simp
next
  case (Cons l ls)
  then show ?case by (auto split: sum.splits dest: pdf_line_keeps)
qed

lemma pdf_pages_keeps: "pdf_pages acc ps = Inr acc' \<Longrightarrow> acc' = acc"
proof (induction ps arbitrary: acc)
  case Nil
  then show ?case by simp
next
  case (Cons t ps)
  then show ?case by (auto split: sum.splits if_splits dest: pdf_lines_keeps)
qed

lemma handle_pdf_body_fails: "\<exists>e. handle_pdf_body doc = Inl e"
proof (cases doc)
  case (Inl e)
  then show ?thesis by (simp add: handle_pdf_body_def)
next
  case (Inr pages)
  show ?thesis
  proof (cases "pdf_pages [] pages")
    case (Inl e)
    with Inr show ?thesis by (simp add: handle_pdf_body_def)
  next
    case r: (Inr x)
    then have "x = []" by (rule pdf_pages_keeps)
    with r Inr show ?thesis by (simp add: handle_pdf_body_def)
  qed
qed

lemma handle_pdf_always_fails: "\<exists>d. handle_pdf doc = Inl (HTTPException 400 d)"
proof -
  obtain e where "handle_pdf_body doc = Inl e" using handle_pdf_body_fails by blast
  then show ?thesis by (simp add: handle_pdf_def)
qed

text \<open>
  Whatever goes wrong inside \<open>upload_file\<close>, the response carries the status 500: the
  handler around the block catches the \<open>HTTPException\<close>s raised with status 400 as well.
\<close>

lemma upload_file_error_status:
  assumes "fst (upload_file L now w file) = Inl e"
  shows "\<exists>d. e = HTTPException 500 d"
proof (cases "upload_file_body L now w file")
  case (Pair r w')
  with assms show ?thesis by (cases r) (auto simp: upload_file_def)
qed

text \<open>
  C1 at a failing input.  A file \<open>notes.txt\<close> is uploaded.  Saving raises the 400
  "Unsupported file type"; the endpoint answers with a 500 that quotes it.
\<close>

theorem unsupported_upload_surfaces_500:
  "fst (upload_file L now w \<lparr>filename = ''notes.txt'', content_type = ''text/plain'', content = ''hello''\<rparr>)
   = Inl (HTTPException 500
            (''An error occurred: '' @ str_exn (HTTPException 400 ''Unsupported file type'')))"
  by (simp del: str_exn.simps add: upload_file_def upload_file_body_def save_and_validate_file_def Let_def
      basename_def path_join_def UPLOAD_DIR_def path_suffix_def path_name_def has_suffix_def
      before_last_dot_def after_last_dot_def ALLOWED_SUFFIXES_def string_of_nat.simps digit_char_def)

lemma validation_errors_nonempty:
  assumes "validate_onboarding_data r = Inl errs"
  shows "errs \<noteq> []"
proof -
  from assms have i: "OnboardingDataModel_init r = Inl errs"
    by (simp add: validate_onboarding_data_def split: sum.splits)
  show ?thesis
  proof (cases "validate_name (r ''name'')")
    case (Inl e)
    with i show ?thesis by (auto simp: OnboardingDataModel_init_def Let_def)
  next
    case n: (Inr n)
    show ?thesis
    proof (cases "validate_email (r ''email'')")
      case (Inl e)
      with i n show ?thesis by (auto simp: OnboardingDataModel_init_def Let_def)
    next
      case e: (Inr e)
      show ?thesis
      proof (cases "validate_age (r ''age'')")
        case (Inl x)
        with i n e show ?thesis by (auto simp: OnboardingDataModel_init_def Let_def)
      next
        case (Inr a)
        with i n e show ?thesis by (auto simp: OnboardingDataModel_init_def Let_def)
      qed
    qed
  qed
qed

lemma first_loc_hd: "errs \<noteq> [] \<Longrightarrow> first_loc errs = Inr (fst (hd errs))"
  by (cases errs) (auto simp: first_loc_def)

lemma validate_entries_first_invalid:
  assumes "list_all record_valid (take i rs)" and "i < length rs"
    and "validate_onboarding_data (rs ! i) = Inl errs"
  shows "validate_entries acc rs
         = Inl (HTTPException 400 (''Validation error in '' @ fst (hd errs) @ '' column data''))"
  using assms
proof (induction rs arbitrary: acc i)
  case Nil
  then show ?case by simp
next
  case (Cons r rs)
  show ?case
  proof (cases i)
    case 0
    with Cons.prems(3) have v: "validate_onboarding_data r = Inl errs" by simp
    then have "errs \<noteq> []" by (rule validation_errors_nonempty)
    then show ?thesis using v by (simp add: first_loc_hd)
  next
    case (Suc j)
    with Cons.prems have rv: "record_valid r" and rest: "list_all record_valid (take j rs)"
      and j: "j < length rs" and bad: "validate_onboarding_data (rs ! j) = Inl errs"
      by simp_all
    from rv obtain v where v: "validate_onboarding_data r = Inr v"
      by (auto simp: record_valid_def split: sum.splits)
    have "validate_entries (acc @ [v]) rs
          = Inl (HTTPException 400 (''Validation error in '' @ fst (hd errs) @ '' column data''))"
      using rest j bad by (rule Cons.IH)
    with v show ?thesis by simp
  qed
qed

lemma upload_aborts_on_validation_error:
  assumes "fst (save_and_validate_file now (files w) file) = Inr p"
    and "extract_records L file = Inr rs"
    and "validate_entries [] rs = Inl e"
  shows "upload_file L now w file
         = (Inl (HTTPException 500 (''An error occurred: '' @ str_exn e)),
            w\<lparr>files := snd (save_and_validate_file now (files w) file)\<rparr>)"
proof (cases "save_and_validate_file now (files w) file")
  case (Pair r fs)
  with assms(1) have "r = Inr p" by simp
  with Pair assms(2,3) show ?thesis
    by (simp add: upload_file_def upload_file_body_def Let_def)
qed

lemmas val_eval = validate_onboarding_data_def OnboardingDataModel_init_def model_dict_def onboarding_record_def
  py_isalpha_def py_isalpha_char_def remove_spaces_def name_must_be_alpha_def name_chars_ok_def
  is_digits_def is_digit_def nat_of_digits_def digit_val_def py_isspace_def py_strip_def
  email_pattern_def OneOrMore_def email_field_matches_def first_loc_def record_valid_def

text \<open>
  C4, as stated, fails: the error does not identify the index of the failing record.  The
  same invalid record gives the same error as the first record of a batch and as the
  second.
\<close>

theorem validation_error_without_index:
  "validate_entries [] [onboarding_record ''John3'' ''john@x.com'' (PyInt 30)]
     = Inl (HTTPException 400 ''Validation error in name column data'')
   \<and> validate_entries [] [onboarding_record ''Jane Doe'' ''jane@x.com'' (PyInt 30),
                        onboarding_record ''John3'' ''john@x.com'' (PyInt 30)]
     = Inl (HTTPException 400 ''Validation error in name column data'')"
  by (simp add: val_eval)

text \<open>
  C4, amended.  The extracted records are validated in their order.  When the record at
  index \<open>i\<close> is the first invalid one, validation stops there with the error
  "Validation error in <field> column data", where the field is the first one of that
  record to fail (the index \<open>i\<close> is not reported); the request ends with an error, no
  record of the batch is returned, and nothing is posted to the downstream service.
\<close>

theorem first_invalid_record_aborts_batch:
  assumes "fst (save_and_validate_file now (files w) file) = Inr p"
    and "extract_records L file = Inr rs"
    and "list_all record_valid (take i rs)" and "i < length rs"
    and "validate_onboarding_data (rs ! i) = Inl errs"
  shows "errs \<noteq> []
     \<and> validate_entries [] rs
         = Inl (HTTPException 400 (''Validation error in '' @ fst (hd errs) @ '' column data''))
     \<and> (\<exists>e. fst (upload_file L now w file) = Inl e)
     \<and> forwarded (snd (upload_file L now w file)) = forwarded w"
proof -
  have 1: "errs \<noteq> []" using assms(5) by (rule validation_errors_nonempty)
  have 2: "validate_entries [] rs
           = Inl (HTTPException 400 (''Validation error in '' @ fst (hd errs) @ '' column data''))"
    using assms(3,4,5) by (rule validate_entries_first_invalid)
  have 3: "upload_file L now w file
         = (Inl (HTTPException 500 (''An error occurred: '' @ str_exn
                 (HTTPException 400 (''Validation error in '' @ fst (hd errs) @ '' column data'')))),
            w\<lparr>files := snd (save_and_validate_file now (files w) file)\<rparr>)"
    using assms(1,2) 2 by (rule upload_aborts_on_validation_error)
  from 1 2 3 show ?thesis by simp
qed

theorem first_invalid_record_aborts_batch_witness:
  "(let rs = [onboarding_record ''Jane Doe'' ''jane@x.com'' (PyInt 30),
              onboarding_record ''John Doe'' ''john.x.com'' (PyInt 0)];
        L = json_rows_libs rs;
        w = \<lparr>files = Map.empty, forwarded = []\<rparr>;
        file = \<lparr>filename = ''data.json'', content_type = ''application/json'', content = ''[]''\<rparr>
    in validate_entries [] rs = Inl (HTTPException 400 ''Validation error in email column data'')
       \<and> (\<exists>e. fst (upload_file L 100 w file) = Inl e)
       \<and> forwarded (snd (upload_file L 100 w file)) = [])"
proof -
  let ?rs = "[onboarding_record ''Jane Doe'' ''jane@x.com'' (PyInt 30),
              onboarding_record ''John Doe'' ''john.x.com'' (PyInt 0)]"
  let ?L = "json_rows_libs ?rs"
  let ?w = "\<lparr>files = Map.empty, forwarded = []\<rparr> :: world"
  let ?file = "\<lparr>filename = ''data.json'', content_type = ''application/json'', content = ''[]''\<rparr>"
  let ?errs = "[(''email'', StringPatternMismatch), (''age'', GreaterThan)]"
  have 1: "fst (save_and_validate_file 100 (files ?w) ?file) = Inr [''uploads'', ''data.json'']"
    by (simp add: save_and_validate_file_def Let_def ensure_upload_dir_def path_exists_def open_wb_def
      basename_def path_join_def UPLOAD_DIR_def path_suffix_def path_name_def has_suffix_def
      before_last_dot_def after_last_dot_def ALLOWED_SUFFIXES_def)
  have 2: "extract_records ?L ?file = Inr ?rs"
    by (simp add: extract_records_def json_rows_libs_def Let_def)
  have 3: "list_all record_valid (take 1 ?rs)" by (simp add: val_eval)
  have 4: "1 < length ?rs" by simp
  have 5: "validate_onboarding_data (?rs ! 1) = Inl ?errs" by (simp add: val_eval)
  from first_invalid_record_aborts_batch [OF 1 2 3 4 5]
  show ?thesis by (simp add: Let_def)
qed

section \<open>Properties of the token service\<close>

lemmas token_defs = token_claims_def signature_valid_def payload_unparsable_def expiry_past_def
  sub_absent_def

lemmas jwt_error_defs = JWTError_def JWTClaimsError_def ExpiredSignatureError_def is_JWTError_def

lemmas claim_check_defs = validate_claims_def validate_iat_def validate_nbf_def validate_exp_def
  validate_at_hash_def

lemma default_ttl:
  "create_access_token secret now data None
   = jwt_encode (data(''exp'' \<mapsto> JInt (now + minutes 15))) secret ALGORITHM"
  by (simp add: create_access_token_def)

lemma login_ttl:
  assumes "authenticate_user db uname pw = Some user"
  shows "login secret now db uname pw
         = Inr \<lparr>access_token = jwt_encode [''sub'' \<mapsto> JStr (username user),
                                             ''exp'' \<mapsto> JInt (now + minutes 30)] secret ALGORITHM,
                 token_type = ''bearer''\<rparr>"
  using assms
  by (simp add: login_def create_access_token_def ACCESS_TOKEN_EXPIRE_MINUTES_def minutes_def Let_def)

lemma absent_outside_dom: "dom c \<subseteq> S \<Longrightarrow> x \<notin> S \<Longrightarrow> c x = None"
  by (auto simp: domIff)

lemma bad_signature_decode:
  assumes "\<not> signature_valid secret tok"
  shows "\<exists>msg. jwt_decode t tok secret [ALGORITHM] = Inl (JWTError msg)"
  using assms by (cases tok) (auto simp: jwt_decode_def signature_valid_def JWTError_def)

lemma unparsable_decode:
  assumes "payload_unparsable tok"
  shows "\<exists>msg. jwt_decode t tok secret [ALGORITHM] = Inl (JWTError msg)"
proof (cases tok)
  case Malformed
  then show ?thesis by (simp add: jwt_decode_def JWTError_def)
next
  case (Jwt alg p sg)
  with assms have "p = Unparsable"
    by (cases p) (simp_all add: payload_unparsable_def token_claims_def)
  with Jwt show ?thesis by (simp add: jwt_decode_def JWTError_def)
qed

lemma decode_error_rejected:
  assumes "jwt_decode t tok secret [ALGORITHM] = Inl (JWTError msg)"
  shows "verify_token secret t tok = Inl credentials_exception"
  using assms by (simp add: verify_token_def jwt_error_defs)

lemma invalid_token_rejected:
  assumes "\<not> signature_valid secret tok \<or> payload_unparsable tok"
  shows "verify_token secret t tok = Inl credentials_exception"
  using assms bad_signature_decode unparsable_decode decode_error_rejected by blast

lemma expired_claims_fail:
  assumes "c ''exp'' = Some (JInt e)" and "e < t"
  shows "\<exists>e'. validate_claims t c = Inl e'"
proof -
  have "validate_exp t c = Inl (ExpiredSignatureError ''Signature has expired.'')"
    using assms by (simp add: validate_exp_def)
  then show ?thesis
    by (cases "validate_iat c"; cases "validate_nbf t c") (simp_all add: validate_claims_def)
qed

lemma decode_result:
  "jwt_decode t tok secret algs = Inr c \<Longrightarrow> token_claims tok = Some c"
  by (auto simp: jwt_decode_def token_claims_def split: token.splits payload.splits if_splits sum.splits)

lemma decode_checks:
  "jwt_decode t tok secret algs = Inr c \<Longrightarrow> validate_claims t c = Inr ()"
  by (auto simp: jwt_decode_def split: token.splits payload.splits if_splits sum.splits)

lemma expired_or_anonymous_fails:
  assumes "expiry_past t tok \<or> sub_absent tok"
  shows "\<exists>e. verify_token secret t tok = Inl e"
proof (cases "jwt_decode t tok secret [ALGORITHM]")
  case (Inl e)
  then show ?thesis by (simp add: verify_token_def)
next
  case (Inr c)
  have tc: "token_claims tok = Some c" using Inr by (rule decode_result)
  have ok: "validate_claims t c = Inr ()" using Inr by (rule decode_checks)
  have "\<not> expiry_past t tok"
  proof
    assume "expiry_past t tok"
    with tc obtain e where "c ''exp'' = Some (JInt e)" "e < t"
      by (auto simp: expiry_past_def split: option.splits jval.splits)
    then have "\<exists>e'. validate_claims t c = Inl e'" by (rule expired_claims_fail)
    with ok show False by simp
  qed
  with assms have "sub_absent tok" by simp
  with tc have "c ''sub'' = None" by (simp add: sub_absent_def)
  with Inr show ?thesis by (simp add: verify_token_def)
qed

lemma plain_claims_checks:
  assumes "dom c \<subseteq> {''sub'', ''exp''}" and "str_or_absent (c ''sub'')" and "int_or_absent (c ''exp'')"
  shows "validate_claims t c
         = (case c ''exp'' of
              Some (JInt e) \<Rightarrow> if e < t then Inl (ExpiredSignatureError ''Signature has expired.'') else Inr ()
            | _ \<Rightarrow> Inr ())"
proof -
  have 1: "c ''iat'' = None" using assms(1) by (rule absent_outside_dom) simp
  have 2: "c ''nbf'' = None" using assms(1) by (rule absent_outside_dom) simp
  have 3: "c ''aud'' = None" using assms(1) by (rule absent_outside_dom) simp
  have 4: "c ''jti'' = None" using assms(1) by (rule absent_outside_dom) simp
  have 5: "c ''at_hash'' = None" using assms(1) by (rule absent_outside_dom) simp
  have 6: "validate_str_claim ''sub'' ''Subject must be a string.'' c = Inr ()"
    using assms(2) by (auto simp: str_or_absent_def split: option.splits jval.splits)
  show ?thesis
    using assms(3) 1 2 3 4 5 6
    by (auto simp: claim_check_defs int_or_absent_def split: option.splits jval.splits)
qed

lemma plain_token_rejected_iff:
  assumes "sub_exp_only tok"
  shows "(\<exists>e. verify_token secret t tok = Inl e)
         \<longleftrightarrow> (\<not> signature_valid secret tok \<or> payload_unparsable tok \<or> expiry_past t tok
              \<or> sub_absent tok)"
proof
  assume "\<not> signature_valid secret tok \<or> payload_unparsable tok \<or> expiry_past t tok \<or> sub_absent tok"
  then show "\<exists>e. verify_token secret t tok = Inl e"
    using invalid_token_rejected [of secret tok t] expired_or_anonymous_fails [of t tok secret]
    by blast
next
  assume f: "\<exists>e. verify_token secret t tok = Inl e"
  show "\<not> signature_valid secret tok \<or> payload_unparsable tok \<or> expiry_past t tok \<or> sub_absent tok"
  proof (rule ccontr)
    assume n: "\<not> (\<not> signature_valid secret tok \<or> payload_unparsable tok \<or> expiry_past t tok
                  \<or> sub_absent tok)"
    then obtain alg p sg where tok: "tok = Jwt alg p sg" and alg: "alg = ALGORITHM"
        and sg: "sg = Hmac secret alg p"
      by (cases tok) (auto simp: signature_valid_def)
    from n tok obtain c where p: "p = Claims c"
      by (cases p) (auto simp: payload_unparsable_def token_claims_def)
    have tc: "token_claims tok = Some c" using tok p by (simp add: token_claims_def)
    from assms tc have d: "dom c \<subseteq> {''sub'', ''exp''}" and s: "str_or_absent (c ''sub'')"
        and i: "int_or_absent (c ''exp'')"
      by (simp_all add: sub_exp_only_def)
    from n tc have ne: "\<not> (case c ''exp'' of Some (JInt e) \<Rightarrow> e < t | _ \<Rightarrow> False)"
      by (simp add: expiry_past_def)
    from n tc obtain v where sub: "c ''sub'' = Some v" by (auto simp: sub_absent_def)
    have "validate_claims t c = Inr ()"
      using plain_claims_checks [OF d s i, of t] ne
      by (auto split: option.splits jval.splits)
    then have "verify_token secret t tok = Inr v"
      using tok alg sg p sub by (simp add: verify_token_def jwt_decode_def)
    with f show False by simp
  qed
qed

lemma plain_token_error:
  assumes "sub_exp_only tok" and "verify_token secret t tok = Inl e"
  shows "e = credentials_exception"
proof (cases "jwt_decode t tok secret [ALGORITHM]")
  case (Inr c)
  with assms(2) show ?thesis by (auto simp: verify_token_def split: option.splits)
next
  case (Inl x)
  show ?thesis
  proof (cases tok)
    case Malformed
    with assms(2) show ?thesis by (simp add: verify_token_def jwt_decode_def jwt_error_defs)
  next
    case (Jwt alg p sg)
    show ?thesis
    proof (cases "alg = ALGORITHM \<and> sg = Hmac secret alg p")
      case False
      with Jwt assms(2) show ?thesis by (simp add: verify_token_def jwt_decode_def jwt_error_defs)
    next
      case True
      show ?thesis
      proof (cases p)
        case Unparsable
        with Jwt True assms(2) show ?thesis
          by (simp add: verify_token_def jwt_decode_def jwt_error_defs)
      next
        case (Claims c)
        have tc: "token_claims tok = Some c" using Jwt Claims by (simp add: token_claims_def)
        from assms(1) tc have d: "dom c \<subseteq> {''sub'', ''exp''}" and s: "str_or_absent (c ''sub'')"
            and i: "int_or_absent (c ''exp'')"
          by (simp_all add: sub_exp_only_def)
        from Inl Jwt True Claims have "validate_claims t c = Inl x"
          by (auto simp: jwt_decode_def split: sum.splits)
        with plain_claims_checks [OF d s i, of t]
        have "x = ExpiredSignatureError ''Signature has expired.''"
          by (auto split: option.splits jval.splits if_splits)
        with Inl assms(2) show ?thesis by (simp add: verify_token_def jwt_error_defs)
      qed
    qed
  qed
qed

lemma issued_token_verifies:
  assumes "now \<le> t" and "t \<le> now + minutes 30"
  shows "verify_token secret t
           (create_access_token secret now [''sub'' \<mapsto> JStr uname] (Some (minutes 30)))
         = Inr (JStr uname)"
  using assms
  by (simp add: verify_token_def jwt_decode_def create_access_token_def jwt_encode_def
        claim_check_defs minutes_def ALGORITHM_def Let_def)

text \<open>
  C7, as stated, fails.  A token signed with the key of the service, with a payload that
  parses, an expiry in the future and a \<open>sub\<close> claim, is still refused with the 401
  credentials error when it carries a \<open>nbf\<close> claim that lies in the future: the library
  checks the other registered claims as well.
\<close>

theorem not_yet_valid_token_rejected:
  "signature_valid ''k''
      (jwt_encode [''sub'' \<mapsto> JStr ''alice'', ''exp'' \<mapsto> JInt 2800, ''nbf'' \<mapsto> JInt 2000] ''k'' ALGORITHM)
   \<and> \<not> payload_unparsable
      (jwt_encode [''sub'' \<mapsto> JStr ''alice'', ''exp'' \<mapsto> JInt 2800, ''nbf'' \<mapsto> JInt 2000] ''k'' ALGORITHM)
   \<and> \<not> expiry_past 1000
      (jwt_encode [''sub'' \<mapsto> JStr ''alice'', ''exp'' \<mapsto> JInt 2800, ''nbf'' \<mapsto> JInt 2000] ''k'' ALGORITHM)
   \<and> \<not> sub_absent
      (jwt_encode [''sub'' \<mapsto> JStr ''alice'', ''exp'' \<mapsto> JInt 2800, ''nbf'' \<mapsto> JInt 2000] ''k'' ALGORITHM)
   \<and> verify_token ''k'' 1000
      (jwt_encode [''sub'' \<mapsto> JStr ''alice'', ''exp'' \<mapsto> JInt 2800, ''nbf'' \<mapsto> JInt 2000] ''k'' ALGORITHM)
     = Inl credentials_exception"
  by (simp add: token_defs jwt_encode_def verify_token_def jwt_decode_def claim_check_defs
        jwt_error_defs)

text \<open>
  C7, amended.  A token issued without an expiry expires 15 minutes after issuance.  A
  successful login issues a token for the user that expires 30 minutes after issuance.
  Verification fails with the 401 credentials error whenever the signature is invalid or
  the payload is unparsable, and it fails whenever the expiry is past or the \<open>sub\<close> claim
  is absent.  For a token whose payload holds no claims other than a string \<open>sub\<close> and an
  integer \<open>exp\<close>, verification fails exactly when the signature is invalid, the payload
  is unparsable, the expiry is past or the \<open>sub\<close> claim is absent, and it then fails with
  the 401 credentials error.  A token issued with a 30-minute expiry verifies from the
  moment of issuance until its expiry, and verification returns its subject.
\<close>

theorem token_service:
  "create_access_token secret now data None
     = jwt_encode (data(''exp'' \<mapsto> JInt (now + minutes 15))) secret ALGORITHM
   \<and> (\<forall>user. authenticate_user db uname pw = Some user \<longrightarrow>
         login secret now db uname pw
         = Inr \<lparr>access_token = jwt_encode [''sub'' \<mapsto> JStr (username user),
                                             ''exp'' \<mapsto> JInt (now + minutes 30)] secret ALGORITHM,
                 token_type = ''bearer''\<rparr>)
   \<and> (\<not> signature_valid secret tok \<or> payload_unparsable tok \<longrightarrow>
         verify_token secret t tok = Inl credentials_exception)
   \<and> (expiry_past t tok \<or> sub_absent tok \<longrightarrow> (\<exists>e. verify_token secret t tok = Inl e))
   \<and> (sub_exp_only tok \<longrightarrow>
         ((\<exists>e. verify_token secret t tok = Inl e)
            \<longleftrightarrow> (\<not> signature_valid secret tok \<or> payload_unparsable tok \<or> expiry_past t tok
                 \<or> sub_absent tok))
         \<and> (\<forall>e. verify_token secret t tok = Inl e \<longrightarrow> e = credentials_exception))
   \<and> (now \<le> t \<and> t \<le> now + minutes 30 \<longrightarrow>
        verify_token secret t
          (create_access_token secret now [''sub'' \<mapsto> JStr uname] (Some (minutes 30)))
        = Inr (JStr uname))"
proof (intro conjI allI impI)
  show "create_access_token secret now data None
        = jwt_encode (data(''exp'' \<mapsto> JInt (now + minutes 15))) secret ALGORITHM"
    by (rule default_ttl)
next
  fix user assume "authenticate_user db uname pw = Some user"
  then show "login secret now db uname pw
         = Inr \<lparr>access_token = jwt_encode [''sub'' \<mapsto> JStr (username user),
                                             ''exp'' \<mapsto> JInt (now + minutes 30)] secret ALGORITHM,
                 token_type = ''bearer''\<rparr>"
    by (rule login_ttl)
next
  assume "\<not> signature_valid secret tok \<or> payload_unparsable tok"
  then show "verify_token secret t tok = Inl credentials_exception"
    by (rule invalid_token_rejected)
next
  assume "expiry_past t tok \<or> sub_absent tok"
  then show "\<exists>e. verify_token secret t tok = Inl e" by (rule expired_or_anonymous_fails)
next
  assume "sub_exp_only tok"
  then show "(\<exists>e. verify_token secret t tok = Inl e)
            \<longleftrightarrow> (\<not> signature_valid secret tok \<or> payload_unparsable tok \<or> expiry_past t tok
                 \<or> sub_absent tok)"
    by (rule plain_token_rejected_iff)
next
  fix e assume "sub_exp_only tok" and "verify_token secret t tok = Inl e"
  then show "e = credentials_exception" by (rule plain_token_error)
next
  assume "now \<le> t \<and> t \<le> now + minutes 30"
  then show "verify_token secret t
          (create_access_token secret now [''sub'' \<mapsto> JStr uname] (Some (minutes 30)))
        = Inr (JStr uname)"
    by (simp add: issued_token_verifies)
qed

theorem token_service_witness:
  "(let db = [''alice'' \<mapsto> \<lparr>username = ''alice'', user_email = ''alice@x.com'', full_name = None,
                              hashed_password = Bcrypt ''pw''\<rparr>];
        tok = jwt_encode [''sub'' \<mapsto> JStr ''alice'', ''exp'' \<mapsto> JInt 2800] ''k'' ALGORITHM
    in login ''k'' 1000 db ''alice'' ''pw'' = Inr \<lparr>access_token = tok, token_type = ''bearer''\<rparr>
       \<and> sub_exp_only tok
       \<and> verify_token ''k'' 1000 tok = Inr (JStr ''alice'')
       \<and> expiry_past 2801 tok
       \<and> verify_token ''k'' 2801 tok = Inl credentials_exception
       \<and> \<not> signature_valid ''other'' tok
       \<and> verify_token ''other'' 1000 tok = Inl credentials_exception
       \<and> create_access_token ''k'' 1000 [''sub'' \<mapsto> JStr ''alice''] None
           = jwt_encode [''sub'' \<mapsto> JStr ''alice'', ''exp'' \<mapsto> JInt 1900] ''k'' ALGORITHM)"
proof -
  let ?user = "\<lparr>username = ''alice'', user_email = ''alice@x.com'', full_name = None,
                hashed_password = Bcrypt ''pw''\<rparr>"
  let ?db = "[''alice'' \<mapsto> ?user]"
  let ?tok = "jwt_encode [''sub'' \<mapsto> JStr ''alice'', ''exp'' \<mapsto> JInt 2800] ''k'' ALGORITHM"
  note T = token_service [of "''k''" 1000 "[''sub'' \<mapsto> JStr ''alice'']" ?db "''alice''" "''pw''"
             ?tok 2801]
  have a: "authenticate_user ?db ''alice'' ''pw'' = Some ?user"
    by (simp add: authenticate_user_def verify_password_def)
  have 1: "login ''k'' 1000 ?db ''alice'' ''pw'' = Inr \<lparr>access_token = ?tok, token_type = ''bearer''\<rparr>"
    using T a by (simp add: minutes_def)
  have 2: "verify_token ''k'' 1000 ?tok = Inr (JStr ''alice'')"
    using token_service [of "''k''" 1000 "[''sub'' \<mapsto> JStr ''alice'']" ?db "''alice''" "''pw''"
             ?tok 1000]
    by (simp add: minutes_def create_access_token_def)
  have 3: "expiry_past 2801 ?tok"
    by (simp add: expiry_past_def token_claims_def jwt_encode_def)
  have 4: "sub_exp_only ?tok"
    by (simp add: sub_exp_only_def token_claims_def jwt_encode_def str_or_absent_def int_or_absent_def)
  from T 3 have "\<exists>e. verify_token ''k'' 2801 ?tok = Inl e" by blast
  with T 4 have 5: "verify_token ''k'' 2801 ?tok = Inl credentials_exception" by blast
  have 6: "\<not> signature_valid ''other'' ?tok"
    by (simp add: signature_valid_def jwt_encode_def)
  have 7: "verify_token ''other'' 1000 ?tok = Inl credentials_exception"
    using token_service [of "''other''" 1000 "[''sub'' \<mapsto> JStr ''alice'']" ?db "''alice''" "''pw''"
             ?tok 1000] 6
    by blast
  have 8: "create_access_token ''k'' 1000 [''sub'' \<mapsto> JStr ''alice''] None
           = jwt_encode [''sub'' \<mapsto> JStr ''alice'', ''exp'' \<mapsto> JInt 1900] ''k'' ALGORITHM"
    using T by (simp add: minutes_def)
  from 1 2 3 4 5 6 7 8 show ?thesis by (simp add: Let_def)
qed

end
